theory Spec2Isabelle
  imports Complex_Main "HOL-Library.Multiset"
begin

section \<open>Shared JavaScript notions\<close>

text \<open>
  Errors are values. \<open>TransportError\<close> is whatever \<open>axios.post\<close> throws and the service's
  \<open>get\<close> logs and re-throws; \<open>TypeError\<close> is the runtime error of reading a property of
  \<open>undefined\<close> or \<open>null\<close>; \<open>InvalidAddress\<close> is the argument error of ethers'
  \<open>getAddress\<close>.
\<close>

datatype error = TransportError | TypeError | InvalidAddress

text \<open>
  \<open>String.prototype.toLowerCase\<close> on the ASCII letters; every other character is kept
  (addresses are hexadecimal ASCII strings).
\<close>

definition toLowerChar :: "char \<Rightarrow> char" where
  "toLowerChar c =
     (case map_of (zip ''ABCDEFGHIJKLMNOPQRSTUVWXYZ'' ''abcdefghijklmnopqrstuvwxyz'') c of
        Some d \<Rightarrow> d
      | None \<Rightarrow> c)"

definition toLowerCase :: "string \<Rightarrow> string" where
  "toLowerCase s = map toLowerChar s"

text \<open>
  A plain JavaScript object with string keys is an association list in the order in which
  \<open>Object.keys\<close>, \<open>Object.values\<close> and lodash enumerate it: the keys that are array
  indices (canonical decimal numerals below \<open>2^32 - 1\<close>) first, in ascending numeric order,
  then the other keys in the order of their creation. Writing an existing key replaces the
  value and keeps the key's place. Writing the key \<open>__proto__\<close>, when the object has no
  key of that name, runs the setter that every plain object inherits: it changes the
  object's prototype and makes no key. The prototype is not part of the list: no operation
  here reads an inherited property.
\<close>

definition digit_val :: "char \<Rightarrow> nat option" where
  "digit_val c = map_of (zip ''0123456789'' [0, 1, 2, 3, 4, 5, 6, 7, 8, 9]) c"

fun digits_value :: "string \<Rightarrow> nat \<Rightarrow> nat option" where
  "digits_value [] acc = Some acc"
| "digits_value (c # cs) acc =
     (case digit_val c of None \<Rightarrow> None | Some d \<Rightarrow> digits_value cs (10 * acc + d))"

definition array_index :: "string \<Rightarrow> nat option" where
  "array_index s =
     (if s = [] \<or> (hd s = CHR ''0'' \<and> tl s \<noteq> []) then None
      else case digits_value s 0 of
             None \<Rightarrow> None
           | Some n \<Rightarrow> if n < 4294967295 then Some n else None)"

definition key_before :: "string \<Rightarrow> string \<Rightarrow> bool" where
  "key_before k k' =
     (case array_index k of
        None \<Rightarrow> False
      | Some n \<Rightarrow> (case array_index k' of None \<Rightarrow> True | Some n' \<Rightarrow> n < n'))"

fun js_insert_new :: "string \<Rightarrow> 'v \<Rightarrow> (string \<times> 'v) list \<Rightarrow> (string \<times> 'v) list" where
  "js_insert_new k v [] = [(k, v)]"
| "js_insert_new k v (kv # kvs) =
     (if key_before k (fst kv) then (k, v) # kv # kvs else kv # js_insert_new k v kvs)"

definition js_put :: "string \<Rightarrow> 'v \<Rightarrow> (string \<times> 'v) list \<Rightarrow> (string \<times> 'v) list" where
  "js_put k v kvs =
     (if k \<in> set (map fst kvs)
      then map (\<lambda>kv. if fst kv = k then (k, v) else kv) kvs
      else if k = ''__proto__'' then kvs
      else js_insert_new k v kvs)"

definition js_delete :: "string \<Rightarrow> (string \<times> 'v) list \<Rightarrow> (string \<times> 'v) list" where
  "js_delete k kvs = filter (\<lambda>kv. fst kv \<noteq> k) kvs"


section \<open>The alert registry (useAlerts.ts)\<close>

datatype AlertType = ERROR | INFO | FEATURE

datatype AlertPriority = LOW | MEDIUM | HIGH

text \<open>
  The optional fields of \<open>Alert\<close> are options (\<open>None\<close> is \<open>undefined\<close>). The callback
  \<open>action\<close> is an opaque handle: the registry never calls it.
\<close>

record Alert =
  alert_id :: string
  priority :: "AlertPriority option"
  label :: string
  alert_type :: AlertType
  actionLabel :: "string option"
  action :: "nat option"
  actionOnClick :: "bool option"
  persistent :: "bool option"

type_synonym alertsState = "(string \<times> Alert) list"

definition initial_alertsState :: alertsState where
  "initial_alertsState =
     [(''v2-beta'',
       \<lparr>alert_id = ''v2-beta'', priority = Some LOW,
        label = ''Explore our new UI at https://beta.beets.fi/. Beta now live.'',
        alert_type = FEATURE, actionLabel = Some ''Check it out'', action = Some 0,
        actionOnClick = Some False, persistent = Some False\<rparr>)]"





definition addAlert :: "Alert \<Rightarrow> alertsState \<Rightarrow> alertsState" where
  "addAlert alert st =
     js_put (alert_id alert)
       (alert\<lparr>priority := Some (case priority alert of None \<Rightarrow> LOW | Some p \<Rightarrow> p)\<rparr>) st"

definition removeAlert :: "string \<Rightarrow> alertsState \<Rightarrow> alertsState" where
  "removeAlert alertId st = js_delete alertId st"



section \<open>The backend client (beethovenx.service.ts)\<close>

text \<open>
  The private \<open>get\<close> posts the query and returns \<open>data.data\<close> of the answer, or re-throws
  the transport error. Its outcome is the input of each method: \<open>Inl e\<close> when it throws,
  \<open>Inr None\<close> when the envelope's \<open>data\<close> is \<open>null\<close>, \<open>Inr (Some r)\<close> otherwise.
\<close>

subsection \<open>getUserDataForFarm\<close>

record GqlBeetsFarmUser =
  fu_id :: string
  fu_address :: string
  amount :: string
  beetsHarvested :: string
  farmId :: string
  rewardDebt :: string
  fu_timestamp :: string

text \<open>
  The answer carries the field \<open>beetsGetUserDataForFarm\<close>, a record or \<open>null\<close>.
  Destructuring a \<open>null\<close> answer throws. The method's value is a nullable record, so that
  "not null" can be said of it.
\<close>

definition getUserDataForFarm ::
  "string \<Rightarrow> string \<Rightarrow> error + GqlBeetsFarmUser option option \<Rightarrow> error + GqlBeetsFarmUser option"
where
  "getUserDataForFarm farm userAddress response =
     (case response of
        Inl e \<Rightarrow> Inl e
      | Inr None \<Rightarrow> Inl TypeError
      | Inr (Some beetsGetUserDataForFarm) \<Rightarrow>
          Inr (case beetsGetUserDataForFarm of
                 Some u \<Rightarrow> Some u
               | None \<Rightarrow>
                   Some \<lparr>fu_id = '''', fu_address = '''', amount = ''0'', beetsHarvested = ''0'',
                         farmId = farm, rewardDebt = ''0'', fu_timestamp = ''''\<rparr>))"

subsection \<open>getTokenPrices\<close>

text \<open>
  ethers' \<open>getAddress\<close> is a parameter: \<open>None\<close> where it throws (the argument is not a valid
  address), the checksum-formatted address otherwise. \<open>isAddress\<close> is ethers' own definition:
  it runs \<open>getAddress\<close> and answers whether that returned.
\<close>

definition isAddress :: "(string \<Rightarrow> string option) \<Rightarrow> string \<Rightarrow> bool" where
  "isAddress getAddress a = (getAddress a \<noteq> None)"

record GqlTokenPrice =
  tp_address :: string
  tp_price :: rat

text \<open>
  \<open>Price\<close> and \<open>TokenPrices\<close> are dictionaries; only their keys and values are read, so
  they are maps.
\<close>

type_synonym Price = "string \<rightharpoonup> rat"

type_synonym TokenPrices = "string \<rightharpoonup> Price"

text \<open>The object literal \<open>{ usd: price }\<close>.\<close>

definition usd_price :: "rat \<Rightarrow> Price" where
  "usd_price price = [''usd'' \<mapsto> price]"

fun tokenPrices_loop ::
  "(string \<Rightarrow> string option) \<Rightarrow> GqlTokenPrice list \<Rightarrow> TokenPrices \<Rightarrow> TokenPrices" where
  "tokenPrices_loop getAddress [] result = result"
| "tokenPrices_loop getAddress (tokenPrice # rest) result =
     (if isAddress getAddress (tp_address tokenPrice)
      then tokenPrices_loop getAddress rest
             (result(the (getAddress (tp_address tokenPrice)) \<mapsto> usd_price (tp_price tokenPrice)))
      else tokenPrices_loop getAddress rest result)"

definition getTokenPrices ::
  "(string \<Rightarrow> string option) \<Rightarrow> error + GqlTokenPrice list option \<Rightarrow> error + TokenPrices" where
  "getTokenPrices getAddress response =
     (case response of
        Inl e \<Rightarrow> Inl e
      | Inr None \<Rightarrow> Inr Map.empty
      | Inr (Some tokenPrices) \<Rightarrow> Inr (tokenPrices_loop getAddress tokenPrices Map.empty))"

subsection \<open>getHistoricalTokenPrices\<close>

text \<open>
  A price series as the backend sends it. The timestamps are compared with \<open>===\<close> and used
  as keys of the result, so any type with equality stands for them.
\<close>

record 'ts GqlHistoricalPrice =
  hp_timestamp :: 'ts
  hp_price :: rat

record 'ts GqlHistoricalTokenPrice =
  htp_address :: string
  prices :: "'ts GqlHistoricalPrice list"

type_synonym 'ts HistoricalPrices = "'ts \<rightharpoonup> rat list"

text \<open>lodash's \<open>keyBy\<close>: a later element replaces an earlier one with the same key.\<close>

definition keyBy :: "('a \<Rightarrow> 'k) \<Rightarrow> 'a list \<Rightarrow> ('k \<rightharpoonup> 'a)" where
  "keyBy f xs = foldl (\<lambda>m x. m(f x \<mapsto> x)) Map.empty xs"

text \<open>
  \<open>tokenPrices[0]?.prices.map(price => price.timestamp) || []\<close>: the timestamps of the
  first series of the answer, none when the answer is empty.
\<close>

definition timestamps_of :: "'ts GqlHistoricalTokenPrice list \<Rightarrow> 'ts list" where
  "timestamps_of tokenPrices =
     (case tokenPrices of [] \<Rightarrow> [] | first # _ \<Rightarrow> map hp_timestamp (prices first))"

text \<open>
  \<open>entry?.price || 0\<close> for the \<open>entry\<close> that \<open>find\<close> returns: \<open>0\<close> when no entry of the
  series has the timestamp, or the price found is \<open>0\<close>.
\<close>

definition price_found :: "'ts GqlHistoricalTokenPrice \<Rightarrow> 'ts \<Rightarrow> rat" where
  "price_found series timestamp =
     (case find (\<lambda>price. hp_timestamp price = timestamp) (prices series) of
        None \<Rightarrow> 0
      | Some entry \<Rightarrow> (if hp_price entry = 0 then 0 else hp_price entry))"

text \<open>
  The callback of \<open>lowerCaseAddresses.map\<close> for one address: \<open>tokenPricesMap[address]\<close> is
  \<open>undefined\<close> for an address without a series, and reading its \<open>prices\<close> throws.
\<close>

definition price_at ::
  "(string \<rightharpoonup> 'ts GqlHistoricalTokenPrice) \<Rightarrow> 'ts \<Rightarrow> string \<Rightarrow> error + rat" where
  "price_at tokenPricesMap timestamp a =
     (case tokenPricesMap a of
        None \<Rightarrow> Inl TypeError
      | Some series \<Rightarrow> Inr (price_found series timestamp))"

fun price_row ::
  "(string \<rightharpoonup> 'ts GqlHistoricalTokenPrice) \<Rightarrow> 'ts \<Rightarrow> string list \<Rightarrow> error + rat list" where
  "price_row tokenPricesMap timestamp [] = Inr []"
| "price_row tokenPricesMap timestamp (a # rest) =
     (case price_at tokenPricesMap timestamp a of
        Inl e \<Rightarrow> Inl e
      | Inr p \<Rightarrow>
          (case price_row tokenPricesMap timestamp rest of
             Inl e \<Rightarrow> Inl e
           | Inr ps \<Rightarrow> Inr (p # ps)))"

fun historical_loop ::
  "string list \<Rightarrow> (string \<rightharpoonup> 'ts GqlHistoricalTokenPrice) \<Rightarrow> 'ts list \<Rightarrow>
   'ts HistoricalPrices \<Rightarrow> error + 'ts HistoricalPrices" where
  "historical_loop lowerCaseAddresses tokenPricesMap [] result = Inr result"
| "historical_loop lowerCaseAddresses tokenPricesMap (timestamp # rest) result =
     (case price_row tokenPricesMap timestamp lowerCaseAddresses of
        Inl e \<Rightarrow> Inl e
      | Inr row \<Rightarrow>
          historical_loop lowerCaseAddresses tokenPricesMap rest (result(timestamp \<mapsto> row)))"

definition getHistoricalTokenPrices ::
  "string list \<Rightarrow> error + 'ts GqlHistoricalTokenPrice list option \<Rightarrow> error + 'ts HistoricalPrices"
where
  "getHistoricalTokenPrices addresses response =
     (let lowerCaseAddresses = map toLowerCase addresses in
      case response of
        Inl e \<Rightarrow> Inl e
      | Inr None \<Rightarrow> Inl TypeError
      | Inr (Some tokenPrices) \<Rightarrow>
          (let timestamps = timestamps_of tokenPrices;
               tokenPricesMap = keyBy htp_address tokenPrices
           in historical_loop lowerCaseAddresses tokenPricesMap timestamps Map.empty))"


section \<open>The user-pools query (useUserPoolsQuery.ts)\<close>

subsection \<open>Decimal numbers (bignumber.js behind \<open>bnum\<close>)\<close>

text \<open>
  A \<open>BigNumber\<close> is a decimal number, an infinity or \<open>NaN\<close>. \<open>bnum\<close> makes one of a
  decimal string or a number, and \<open>toString\<close> followed by \<open>bnum\<close> gives the same value
  back, so the string-valued fields \<open>totalLiquidity\<close>, \<open>totalShares\<close>, \<open>balance\<close> and
  \<open>shares\<close> hold the \<open>BigNumber\<close> their string denotes. The sign of a zero is not kept:
  it shows only when a negative zero is a divisor.

  \<open>times\<close> and \<open>plus\<close> are exact. \<open>div\<close> rounds the quotient to the library's configured
  \<open>DECIMAL_PLACES\<close> in its configured \<open>ROUNDING_MODE\<close>; the rounding \<open>rnd\<close> is a
  parameter, and a number divided by zero is an infinity, or \<open>NaN\<close> when it is zero itself.
\<close>

datatype BigNumber = Finite rat | PosInfinity | NegInfinity | NaN

fun div_bn :: "(rat \<Rightarrow> rat) \<Rightarrow> BigNumber \<Rightarrow> BigNumber \<Rightarrow> BigNumber" where
  "div_bn rnd NaN y = NaN"
| "div_bn rnd x NaN = NaN"
| "div_bn rnd (Finite x) (Finite y) =
     (if y = 0 then (if x = 0 then NaN else if x < 0 then NegInfinity else PosInfinity)
      else Finite (rnd (x / y)))"
| "div_bn rnd (Finite x) y = Finite 0"
| "div_bn rnd PosInfinity (Finite y) = (if y < 0 then NegInfinity else PosInfinity)"
| "div_bn rnd NegInfinity (Finite y) = (if y < 0 then PosInfinity else NegInfinity)"
| "div_bn rnd x y = NaN"

fun times_bn :: "BigNumber \<Rightarrow> BigNumber \<Rightarrow> BigNumber" where
  "times_bn NaN y = NaN"
| "times_bn x NaN = NaN"
| "times_bn (Finite x) (Finite y) = Finite (x * y)"
| "times_bn (Finite x) PosInfinity =
     (if x = 0 then NaN else if x < 0 then NegInfinity else PosInfinity)"
| "times_bn (Finite x) NegInfinity =
     (if x = 0 then NaN else if x < 0 then PosInfinity else NegInfinity)"
| "times_bn PosInfinity (Finite y) =
     (if y = 0 then NaN else if y < 0 then NegInfinity else PosInfinity)"
| "times_bn NegInfinity (Finite y) =
     (if y = 0 then NaN else if y < 0 then PosInfinity else NegInfinity)"
| "times_bn PosInfinity PosInfinity = PosInfinity"
| "times_bn PosInfinity NegInfinity = NegInfinity"
| "times_bn NegInfinity PosInfinity = NegInfinity"
| "times_bn NegInfinity NegInfinity = PosInfinity"

fun plus_bn :: "BigNumber \<Rightarrow> BigNumber \<Rightarrow> BigNumber" where
  "plus_bn NaN y = NaN"
| "plus_bn x NaN = NaN"
| "plus_bn (Finite x) (Finite y) = Finite (x + y)"
| "plus_bn PosInfinity NegInfinity = NaN"
| "plus_bn NegInfinity PosInfinity = NaN"
| "plus_bn (Finite x) y = y"
| "plus_bn x y = x"

text \<open>
  The library's default rounding of a quotient: to \<open>dp\<close> decimal places, to the nearest
  neighbour, a tie away from zero (\<open>ROUND_HALF_UP\<close>; \<open>DECIMAL_PLACES\<close> is 20 by default).
\<close>

definition ROUND_HALF_UP :: "nat \<Rightarrow> rat \<Rightarrow> rat" where
  "ROUND_HALF_UP dp x =
     (if x < 0 then - (of_int \<lfloor>- x * 10 ^ dp + 1 / 2\<rfloor> / 10 ^ dp)
      else of_int \<lfloor>x * 10 ^ dp + 1 / 2\<rfloor> / 10 ^ dp)"

subsection \<open>Pools and pool shares\<close>

text \<open>
  A token of a pool: its address and, uninterpreted, its other fields. \<open>{...token, address}\<close>
  replaces the address and keeps the rest.
\<close>

record PoolToken =
  token_address :: string
  token_fields :: "(string \<times> string) list"

text \<open>
  The fields of \<open>Pool\<close> (and of \<open>LinearPool\<close>, \<open>DecoratedPool\<close>) that the query reads or
  writes. \<open>wrappedTokens\<close> is an optional JavaScript array that may have holes (\<open>None\<close>
  inside the list); the value of \<open>linearPoolToMainTokenMap\<close> at a key may be
  \<open>undefined\<close>. \<open>linearPools\<close> is only tested for truthiness.
\<close>

record Pool =
  pool_id :: string
  address :: string
  poolType :: string
  tokensList :: "string list"
  tokens :: "PoolToken list"
  totalLiquidity :: BigNumber
  totalShares :: BigNumber
  linearPools :: "string list option"
  wrappedIndex :: int
  mainIndex :: int
  wrappedTokens :: "string option list option"
  linearPoolTokensMap :: "(string \<rightharpoonup> PoolToken) option"
  linearPoolToMainTokenMap :: "(string \<rightharpoonup> string option) option"

record PoolShare =
  poolId :: string
  balance :: BigNumber

record DecoratedPoolWithShares =
  decoratedPool :: Pool
  shares :: BigNumber

record UserPoolsQueryResponse =
  pools :: "DecoratedPoolWithShares list"
  totalInvestedAmount :: BigNumber
  queried_tokens :: "string list"

subsection \<open>JavaScript arrays\<close>

text \<open>\<open>xs[i]\<close>, the element at position \<open>i\<close>: \<open>undefined\<close> outside the array.\<close>

definition js_nth :: "'a list \<Rightarrow> int \<Rightarrow> 'a option" where
  "js_nth xs i = (if 0 \<le> i \<and> nat i < length xs then Some (xs ! nat i) else None)"

text \<open>\<open>xs.indexOf(x)\<close>: the first position of \<open>x\<close>, or \<open>-1\<close>.\<close>

fun indexOf :: "'a list \<Rightarrow> 'a \<Rightarrow> int" where
  "indexOf [] x = - 1"
| "indexOf (y # ys) x =
     (if y = x then 0 else (let i = indexOf ys x in if i < 0 then - 1 else i + 1))"

text \<open>
  \<open>xs[i] = v\<close> on an array with holes: inside the array the element is replaced, beyond
  its end the array grows and the positions in between are holes. At \<open>i = -1\<close> the
  assignment makes a property named \<open>"-1"\<close>, which is no element: the elements stay as
  they are.
\<close>

definition js_array_set :: "'a option list \<Rightarrow> int \<Rightarrow> 'a \<Rightarrow> 'a option list" where
  "js_array_set xs i v =
     (if i < 0 then xs
      else if nat i < length xs then xs[nat i := Some v]
      else xs @ replicate (nat i - length xs) None @ [Some v])"

subsection \<open>removePreMintedBPT\<close>

text \<open>
  \<open>balancerSubgraphService.pools.addressFor\<close>, which derives a pool's address from its
  id, is a parameter.
\<close>

definition removePreMintedBPT :: "(string \<Rightarrow> string) \<Rightarrow> Pool \<Rightarrow> Pool" where
  "removePreMintedBPT addressFor pool =
     (let poolAddress = addressFor (pool_id pool)
      in pool\<lparr>tokensList := filter (\<lambda>a. a \<noteq> toLowerCase poolAddress) (tokensList pool)\<rparr>)"

subsection \<open>getLinearPoolAttrs\<close>

text \<open>
  The inner \<open>forEach\<close> over the tokens of one linear pool that are not the pool's own
  token; \<open>getAddress\<close> throws on an invalid address.
\<close>

fun linearPoolTokens_loop ::
  "(string \<Rightarrow> string option) \<Rightarrow> PoolToken list \<Rightarrow> (string \<rightharpoonup> PoolToken) \<Rightarrow>
   error + (string \<rightharpoonup> PoolToken)" where
  "linearPoolTokens_loop getAddress [] tokensMap = Inr tokensMap"
| "linearPoolTokens_loop getAddress (token # rest) tokensMap =
     (case getAddress (token_address token) of
        None \<Rightarrow> Inl InvalidAddress
      | Some checksummed \<Rightarrow>
          linearPoolTokens_loop getAddress rest
            (tokensMap(checksummed \<mapsto> token\<lparr>token_address := checksummed\<rparr>)))"

text \<open>The array \<open>pool.wrappedTokens\<close> after \<open>if (!pool.wrappedTokens) pool.wrappedTokens = []\<close>.\<close>

definition wrapped_array :: "Pool \<Rightarrow> string option list" where
  "wrapped_array pool = (case wrappedTokens pool of None \<Rightarrow> [] | Some w \<Rightarrow> w)"

text \<open>
  One round of \<open>linearPools.forEach\<close>, on the parent pool and the map built so far.
  \<open>linearPool.tokensList[linearPool.wrappedIndex]\<close> is \<open>undefined\<close> outside the list, and
  \<open>getAddress(undefined)\<close> throws.
\<close>

definition linearPool_step ::
  "(string \<Rightarrow> string option) \<Rightarrow> Pool \<Rightarrow> Pool \<times> (string \<rightharpoonup> PoolToken) \<Rightarrow>
   error + Pool \<times> (string \<rightharpoonup> PoolToken)" where
  "linearPool_step getAddress linearPool st =
     (let pool = fst st;
          tokensMap = snd st;
          wrapped = wrapped_array pool;
          index = indexOf (tokensList pool) (toLowerCase (address linearPool))
      in case js_nth (tokensList linearPool) (wrappedIndex linearPool) of
           None \<Rightarrow> Inl InvalidAddress
         | Some wrappedToken \<Rightarrow>
             (case getAddress wrappedToken of
                None \<Rightarrow> Inl InvalidAddress
              | Some checksummed \<Rightarrow>
                  (case linearPoolTokens_loop getAddress
                          (filter (\<lambda>token. token_address token \<noteq> address linearPool)
                             (tokens linearPool))
                          tokensMap of
                     Inl e \<Rightarrow> Inl e
                   | Inr m \<Rightarrow>
                       Inr (pool\<lparr>wrappedTokens := Some (js_array_set wrapped index checksummed)\<rparr>,
                            m))))"

fun linearPools_loop ::
  "(string \<Rightarrow> string option) \<Rightarrow> Pool list \<Rightarrow> Pool \<times> (string \<rightharpoonup> PoolToken) \<Rightarrow>
   error + Pool \<times> (string \<rightharpoonup> PoolToken)" where
  "linearPools_loop getAddress [] st = Inr st"
| "linearPools_loop getAddress (linearPool # rest) st =
     (case linearPool_step getAddress linearPool st of
        Inl e \<Rightarrow> Inl e
      | Inr st' \<Rightarrow> linearPools_loop getAddress rest st')"

definition mainTokenMap :: "Pool list \<Rightarrow> (string \<rightharpoonup> string option)" where
  "mainTokenMap linears =
     foldl (\<lambda>m linearPool.
              m(address linearPool \<mapsto> js_nth (tokensList linearPool) (mainIndex linearPool)))
       Map.empty linears"

text \<open>
  \<open>fetched\<close> is the outcome of \<open>balancerSubgraphService.pools.get()\<close> inside the function.
\<close>

definition getLinearPoolAttrs ::
  "(string \<Rightarrow> string option) \<Rightarrow> error + Pool list \<Rightarrow> Pool \<Rightarrow> error + Pool" where
  "getLinearPoolAttrs getAddress fetched pool =
     (case fetched of
        Inl e \<Rightarrow> Inl e
      | Inr fetchedPools \<Rightarrow>
          (let linearPools = filter (\<lambda>pool. poolType pool = ''Linear'') fetchedPools
           in case linearPools_loop getAddress linearPools (pool, Map.empty) of
                Inl e \<Rightarrow> Inl e
              | Inr (pool', tokensMap) \<Rightarrow>
                  Inr (pool'\<lparr>linearPoolTokensMap := Some tokensMap,
                             linearPoolToMainTokenMap := Some (mainTokenMap linearPools)\<rparr>)))"

subsection \<open>queryFn\<close>

text \<open>
  The collaborators that are not part of the file are parameters, gathered in a record:
  \<open>isStablePhantom\<close> and \<open>lpTokensFor\<close> of \<open>usePool\<close>, the subgraph service's
  \<open>addressFor\<close> and \<open>decorate\<close>, ethers' \<open>getAddress\<close>, the rounding of \<open>div\<close>, the
  outcome of the \<open>pools.get()\<close> that \<open>getLinearPoolAttrs\<close> makes for the pool at a given
  position, and the outcome of awaiting \<open>injectTokens\<close> and \<open>forChange\<close> (\<open>None\<close> when
  both complete).
\<close>

record collaborators =
  c_isStablePhantom :: "string \<Rightarrow> bool"
  c_lpTokensFor :: "Pool \<Rightarrow> string list"
  c_addressFor :: "string \<Rightarrow> string"
  c_decorate :: "Pool list \<Rightarrow> error + Pool list"
  c_getAddress :: "string \<Rightarrow> string option"
  c_rnd :: "rat \<Rightarrow> rat"
  c_refetch :: "nat \<Rightarrow> error + Pool list"
  c_awaited :: "error option"

text \<open>The body of the \<open>for\<close> loop over the fetched pools, for the pool at position \<open>i\<close>.\<close>

definition decorate_pool :: "collaborators \<Rightarrow> nat \<Rightarrow> Pool \<Rightarrow> error + Pool" where
  "decorate_pool c i pool =
     (let pool1 = (if c_isStablePhantom c (poolType pool)
                   then removePreMintedBPT (c_addressFor c) pool else pool)
      in if linearPools pool1 \<noteq> None
         then getLinearPoolAttrs (c_getAddress c) (c_refetch c i) pool1
         else Inr pool1)"

fun decorate_loop :: "collaborators \<Rightarrow> nat \<Rightarrow> Pool list \<Rightarrow> error + Pool list" where
  "decorate_loop c i [] = Inr []"
| "decorate_loop c i (pool # rest) =
     (case decorate_pool c i pool of
        Inl e \<Rightarrow> Inl e
      | Inr pool' \<Rightarrow>
          (case decorate_loop c (Suc i) rest of
             Inl e \<Rightarrow> Inl e
           | Inr rest' \<Rightarrow> Inr (pool' # rest')))"

definition pool_tokens :: "collaborators \<Rightarrow> Pool \<Rightarrow> string list" where
  "pool_tokens c pool = tokensList pool @ c_lpTokensFor c pool @ [c_addressFor c (pool_id pool)]"

text \<open>\<open>poolSharesMap[pool.id]?.balance ?? 0\<close>.\<close>

definition userSharesBalance :: "PoolShare list \<Rightarrow> Pool \<Rightarrow> BigNumber" where
  "userSharesBalance poolShares pool =
     (case keyBy poolId poolShares (pool_id pool) of
        None \<Rightarrow> Finite 0
      | Some poolShare \<Rightarrow> balance poolShare)"

definition with_shares :: "collaborators \<Rightarrow> PoolShare list \<Rightarrow> Pool \<Rightarrow> DecoratedPoolWithShares" where
  "with_shares c poolShares pool =
     \<lparr>decoratedPool = pool,
      shares = times_bn (div_bn (c_rnd c) (totalLiquidity pool) (totalShares pool))
                 (userSharesBalance poolShares pool)\<rparr>"

text \<open>
  \<open>userPools\<close> holds the very objects of \<open>pools\<close> that the loop then changes in place:
  it is the selection from the pools as the loop leaves them (the loop keeps every id).
\<close>

definition queryFn ::
  "collaborators \<Rightarrow> error + PoolShare list \<Rightarrow> error + Pool list \<Rightarrow> error + UserPoolsQueryResponse"
where
  "queryFn c poolSharesFetched poolsFetched =
     (case poolSharesFetched of
        Inl e \<Rightarrow> Inl e
      | Inr poolShares \<Rightarrow>
     (let poolSharesIds = map poolId poolShares in
      case poolsFetched of
        Inl e \<Rightarrow> Inl e
      | Inr fetchedPools \<Rightarrow>
     (case decorate_loop c 0 fetchedPools of
        Inl e \<Rightarrow> Inl e
      | Inr pools' \<Rightarrow>
     (let userPools = filter (\<lambda>pool. pool_id pool \<in> set poolSharesIds) pools';
          tokens' = concat (map (pool_tokens c) pools') in
      case c_awaited c of
        Some e \<Rightarrow> Inl e
      | None \<Rightarrow>
     (case c_decorate c userPools of
        Inl e \<Rightarrow> Inl e
      | Inr decoratedPools \<Rightarrow>
     (let poolsWithShares = map (with_shares c poolShares) decoratedPools;
          total = foldl (\<lambda>acc s. plus_bn acc s) (Finite 0) (map shares poolsWithShares)
      in Inr \<lparr>pools = poolsWithShares, totalInvestedAmount = total,
                queried_tokens = tokens'\<rparr>))))))"


subsection \<open>Numbers for the comparison with the spec\<close>

text \<open>
  For the comparison of \<open>totalInvestedAmount\<close> with the sum the spec writes in the
  arithmetic of numbers: whether a \<open>BigNumber\<close> is a number, and the number it then holds.
\<close>

fun number_of :: "BigNumber \<Rightarrow> rat" where
  "number_of (Finite x) = x"
| "number_of x = 0"

fun isFinite :: "BigNumber \<Rightarrow> bool" where
  "isFinite (Finite x) = True"
| "isFinite x = False"


section \<open>Sample data\<close>

text \<open>Concrete inputs, on which the properties below are instantiated.\<close>

definition sample_alert :: "string \<Rightarrow> AlertPriority option \<Rightarrow> Alert" where
  "sample_alert i p =
     \<lparr>alert_id = i, priority = p, label = ''sample'', alert_type = INFO, actionLabel = None,
      action = None, actionOnClick = None, persistent = None\<rparr>"

text \<open>
  Three token addresses as the subgraph writes them (lower case) and as ethers' \<open>getAddress\<close>
  formats them (EIP-55 checksum), and the restriction of \<open>getAddress\<close> to them.
\<close>

definition sample_WFTM :: string where
  "sample_WFTM = ''0x21be370d5312f44cb42ce377bc9b8a0cef1a4c83''"

definition sample_WFTM_checksum :: string where
  "sample_WFTM_checksum = ''0x21be370D5312f44cB42ce377BC9b8a0cEF1A4C83''"

definition sample_USDC :: string where
  "sample_USDC = ''0x04068da6c83afcfa0e13ba15a6696662335d5b75''"

definition sample_USDC_checksum :: string where
  "sample_USDC_checksum = ''0x04068DA6C83AFCFA0e13ba15A6696662335D5B75''"

definition sample_BEETS :: string where
  "sample_BEETS = ''0xf24bcf4d1e507740041c9cfd2dddb29585adce1e''"

definition sample_BEETS_checksum :: string where
  "sample_BEETS_checksum = ''0xF24Bcf4d1e507740041C9cFd2DddB29585aDCe1e''"

definition sample_getAddress :: "string \<Rightarrow> string option" where
  "sample_getAddress a =
     map_of [(sample_WFTM, sample_WFTM_checksum), (sample_WFTM_checksum, sample_WFTM_checksum),
             (sample_USDC, sample_USDC_checksum), (sample_USDC_checksum, sample_USDC_checksum),
             (sample_BEETS, sample_BEETS_checksum), (sample_BEETS_checksum, sample_BEETS_checksum)] a"

definition sample_tokenPrice :: "string \<Rightarrow> rat \<Rightarrow> GqlTokenPrice" where
  "sample_tokenPrice a p = \<lparr>tp_address = a, tp_price = p\<rparr>"

definition sample_entry :: "int \<times> rat \<Rightarrow> int GqlHistoricalPrice" where
  "sample_entry tp = \<lparr>hp_timestamp = fst tp, hp_price = snd tp\<rparr>"

definition sample_series :: "string \<Rightarrow> (int \<times> rat) list \<Rightarrow> int GqlHistoricalTokenPrice" where
  "sample_series a ps = \<lparr>htp_address = a, prices = map sample_entry ps\<rparr>"

text \<open>
  Collaborators for the samples. The sample \<open>addressFor\<close> takes the first 42 characters of
  the id and formats them, the sample \<open>isStablePhantom\<close> knows the one pool type of that
  name, the sample \<open>lpTokensFor\<close> finds no liquidity-pool tokens, the sample \<open>decorate\<close>
  returns the pools as they are, \<open>div\<close> rounds to 20 places, every \<open>pools.get()\<close> of
  \<open>getLinearPoolAttrs\<close> finds no pool, and the awaited effects complete.
\<close>

definition sample_addressFor :: "string \<Rightarrow> string" where
  "sample_addressFor i =
     (case sample_getAddress (take 42 i) of None \<Rightarrow> take 42 i | Some a \<Rightarrow> a)"

definition sample_isStablePhantom :: "string \<Rightarrow> bool" where
  "sample_isStablePhantom t = (t = ''StablePhantom'')"

definition sample_lpTokensFor :: "Pool \<Rightarrow> string list" where
  "sample_lpTokensFor pool = []"

definition sample_decorate :: "Pool list \<Rightarrow> error + Pool list" where
  "sample_decorate ps = Inr ps"

definition sample_refetch :: "nat \<Rightarrow> error + Pool list" where
  "sample_refetch i = Inr []"

definition sample_collaborators :: collaborators where
  "sample_collaborators =
     \<lparr>c_isStablePhantom = sample_isStablePhantom, c_lpTokensFor = sample_lpTokensFor,
      c_addressFor = sample_addressFor, c_decorate = sample_decorate,
      c_getAddress = sample_getAddress, c_rnd = ROUND_HALF_UP 20, c_refetch = sample_refetch,
      c_awaited = None\<rparr>"

text \<open>
  A pool with the given id, type, token list, liquidity and shares; its address is the first
  42 characters of the id, and it has no linear pools.
\<close>

definition sample_pool :: "string \<Rightarrow> string \<Rightarrow> string list \<Rightarrow> rat \<Rightarrow> rat \<Rightarrow> Pool" where
  "sample_pool i t ts liquidity sharesTotal =
     \<lparr>pool_id = i, address = take 42 i, poolType = t, tokensList = ts, tokens = [],
      totalLiquidity = Finite liquidity, totalShares = Finite sharesTotal, linearPools = None,
      wrappedIndex = 0, mainIndex = 0, wrappedTokens = None, linearPoolTokensMap = None,
      linearPoolToMainTokenMap = None\<rparr>"

definition sample_WFTM_pool_id :: string where
  "sample_WFTM_pool_id = sample_WFTM @ ''000200000000000000000001''"

definition sample_USDC_pool_id :: string where
  "sample_USDC_pool_id = sample_USDC @ ''000200000000000000000002''"

definition sample_BEETS_pool_id :: string where
  "sample_BEETS_pool_id = sample_BEETS @ ''000000000000000000000003''"

definition sample_poolShare :: "string \<Rightarrow> rat \<Rightarrow> PoolShare" where
  "sample_poolShare i b = \<lparr>poolId = i, balance = Finite b\<rparr>"

text \<open>A Linear pool with the given id, token list and wrapped index.\<close>

definition sample_linearPool :: "string \<Rightarrow> string list \<Rightarrow> int \<Rightarrow> Pool" where
  "sample_linearPool i ts w = (sample_pool i ''Linear'' ts 0 0)\<lparr>wrappedIndex := w\<rparr>"

text \<open>
  A query: the user holds 2 shares of a weighted pool (liquidity 10, 4 shares) and 3 shares
  of a StablePhantom pool (liquidity 1, 3 shares) whose token list holds the pool's own
  address; and what the query returns for it.
\<close>

definition sample_pools :: "Pool list" where
  "sample_pools =
     [sample_pool sample_WFTM_pool_id ''Weighted'' [sample_WFTM, sample_USDC] 10 4,
      sample_pool sample_BEETS_pool_id ''StablePhantom'' [sample_WFTM, sample_BEETS] 1 3]"

definition sample_poolShares :: "PoolShare list" where
  "sample_poolShares =
     [sample_poolShare sample_WFTM_pool_id 2, sample_poolShare sample_BEETS_pool_id 3]"

definition sample_response :: UserPoolsQueryResponse where
  "sample_response =
     \<lparr>pools =
        [\<lparr>decoratedPool =
            sample_pool sample_WFTM_pool_id ''Weighted'' [sample_WFTM, sample_USDC] 10 4,
          shares = Finite 5\<rparr>,
         \<lparr>decoratedPool = sample_pool sample_BEETS_pool_id ''StablePhantom'' [sample_WFTM] 1 3,
          shares = Finite (99999999999999999999 / 100000000000000000000)\<rparr>],
      totalInvestedAmount = Finite (599999999999999999999 / 100000000000000000000),
      queried_tokens =
        [sample_WFTM, sample_USDC, sample_WFTM_checksum, sample_WFTM, sample_BEETS_checksum]\<rparr>"

text \<open>
  The same query with a \<open>decorate\<close> that returns one pool more than it was given, a pool of
  which the user has no share record (liquidity 7, 2 shares); and what the query returns.
\<close>

definition sample_decorate_more :: "Pool list \<Rightarrow> error + Pool list" where
  "sample_decorate_more ps =
     Inr (ps @ [sample_pool sample_USDC_pool_id ''Weighted'' [sample_USDC] 7 2])"

definition sample_collaborators_more :: collaborators where
  "sample_collaborators_more = sample_collaborators\<lparr>c_decorate := sample_decorate_more\<rparr>"

definition sample_response_more :: UserPoolsQueryResponse where
  "sample_response_more =
     \<lparr>pools =
        [\<lparr>decoratedPool =
            sample_pool sample_WFTM_pool_id ''Weighted'' [sample_WFTM, sample_USDC] 10 4,
          shares = Finite 5\<rparr>,
         \<lparr>decoratedPool = sample_pool sample_BEETS_pool_id ''StablePhantom'' [sample_WFTM] 1 3,
          shares = Finite (99999999999999999999 / 100000000000000000000)\<rparr>,
         \<lparr>decoratedPool = sample_pool sample_USDC_pool_id ''Weighted'' [sample_USDC] 7 2,
          shares = Finite 0\<rparr>],
      totalInvestedAmount = Finite (599999999999999999999 / 100000000000000000000),
      queried_tokens =
        [sample_WFTM, sample_USDC, sample_WFTM_checksum, sample_WFTM, sample_BEETS_checksum]\<rparr>"


section \<open>Properties of the alert registry\<close>

subsection \<open>Objects as ordered association lists\<close>

lemma map_fst_replace:
  "map fst (map (\<lambda>kv. if fst kv = k then (k, v) else kv) kvs) = map fst kvs"
  by (induction kvs) auto

lemma keys_js_insert_new: "fst ` set (js_insert_new k v kvs) = insert k (fst ` set kvs)"
  by (induction kvs) auto


lemma distinct_js_insert_new:
  "k \<notin> fst ` set kvs \<Longrightarrow> distinct (map fst kvs) \<Longrightarrow> distinct (map fst (js_insert_new k v kvs))"
  by (induction kvs) (auto simp: keys_js_insert_new)

lemma distinct_js_put:
  "distinct (map fst kvs) \<Longrightarrow> distinct (map fst (js_put k v kvs))"
proof (cases "k \<in> fst ` set kvs")
  case True
  assume "distinct (map fst kvs)"
  moreover have "js_put k v kvs = map (\<lambda>kv. if fst kv = k then (k, v) else kv) kvs"
    using True by (simp add: js_put_def)
  ultimately show ?thesis by (simp only: map_fst_replace)
next
  case False
  assume d: "distinct (map fst kvs)"
  have "js_put k v kvs = kvs \<or> js_put k v kvs = js_insert_new k v kvs"
    using False by (simp add: js_put_def)
  then show ?thesis using d False distinct_js_insert_new [of k kvs v] by auto
qed

lemma map_of_js_insert_new:
  "k \<notin> fst ` set kvs \<Longrightarrow> map_of (js_insert_new k v kvs) = (map_of kvs)(k \<mapsto> v)"
  by (induction kvs) (auto simp: fun_upd_twist)

lemma map_of_replace_other:
  "x \<noteq> k \<Longrightarrow> map_of (map (\<lambda>kv. if fst kv = k then (k, v) else kv) kvs) x = map_of kvs x"
  by (induction kvs) auto

lemma map_of_replace_same:
  "k \<in> fst ` set kvs \<Longrightarrow> map_of (map (\<lambda>kv. if fst kv = k then (k, v) else kv) kvs) k = Some v"
  by (induction kvs) auto

lemma map_of_js_put_present:
  assumes "k \<in> fst ` set kvs"
  shows "map_of (js_put k v kvs) = (map_of kvs)(k \<mapsto> v)"
proof (rule ext)
  fix x
  show "map_of (js_put k v kvs) x = ((map_of kvs)(k \<mapsto> v)) x"
    using assms
    by (cases "x = k") (simp_all add: js_put_def map_of_replace_other map_of_replace_same)
qed

text \<open>An alert named \<open>__proto__\<close> is not registered, unless that key is there already.\<close>

lemma addAlert_proto_not_registered:
  "alert_id alert = ''__proto__'' \<Longrightarrow> ''__proto__'' \<notin> fst ` set st \<Longrightarrow> addAlert alert st = st"
  by (simp add: addAlert_def js_put_def)

text \<open>
  Array-index keys come first: on the seeded registry, a new alert with id \<open>7\<close> is
  enumerated before \<open>v2-beta\<close>, one with id \<open>x\<close> after it.
\<close>

lemma addAlert_key_order:
  "map fst (addAlert (sample_alert ''7'' None) initial_alertsState) = [''7'', ''v2-beta'']"
  "map fst (addAlert (sample_alert ''x'' None) initial_alertsState) = [''v2-beta'', ''x'']"
  by (simp_all add: addAlert_def sample_alert_def initial_alertsState_def js_put_def
        key_before_def array_index_def digit_val_def)

subsection \<open>The ordered view\<close>









text \<open>
  Claim C6. When the id of an alert is already registered (the keys of the registry being
  unique, as those of an object are), \<open>addAlert\<close> keeps the keys and their number, stores
  under the id the new alert itself with its priority, or LOW when it has none (nothing of
  the old entry is kept), leaves every other entry as it is, and the keys stay unique.
\<close>

theorem addAlert_existing_id_replaces:
  assumes "distinct (map fst st)" and "alert_id alert \<in> set (map fst st)"
  shows "length (addAlert alert st) = length st
       \<and> map fst (addAlert alert st) = map fst st
       \<and> map_of (addAlert alert st) (alert_id alert)
           = Some (alert\<lparr>priority := Some (case priority alert of None \<Rightarrow> LOW | Some p \<Rightarrow> p)\<rparr>)
       \<and> (\<forall>k. k \<noteq> alert_id alert \<longrightarrow> map_of (addAlert alert st) k = map_of st k)
       \<and> distinct (map fst (addAlert alert st))"
proof -
  have keys: "map fst (addAlert alert st) = map fst st"
  proof -
    have "addAlert alert st
        = map (\<lambda>kv. if fst kv = alert_id alert
                     then (alert_id alert,
                           alert\<lparr>priority := Some (case priority alert of None \<Rightarrow> LOW | Some p \<Rightarrow> p)\<rparr>)
                     else kv) st"
      using assms(2) by (simp add: addAlert_def js_put_def)
    then show ?thesis by (simp only: map_fst_replace)
  qed
  have len: "length (addAlert alert st) = length st"
    using arg_cong [OF keys, of length] by simp
  have present: "alert_id alert \<in> fst ` set st"
    using assms(2) by simp
  show ?thesis
    using keys len assms(1) by (simp add: addAlert_def map_of_js_put_present [OF present])
qed

theorem addAlert_existing_id_replaces_witness:
  "distinct (map fst initial_alertsState)
   \<and> alert_id (sample_alert ''v2-beta'' None) \<in> set (map fst initial_alertsState)
   \<and> length (addAlert (sample_alert ''v2-beta'' None) initial_alertsState) = 1
   \<and> map_of (addAlert (sample_alert ''v2-beta'' None) initial_alertsState) ''v2-beta''
       = Some (sample_alert ''v2-beta'' (Some LOW))"
proof -
  have h1: "distinct (map fst initial_alertsState)"
    by (simp add: initial_alertsState_def)
  have h2: "alert_id (sample_alert ''v2-beta'' None) \<in> set (map fst initial_alertsState)"
    by (simp add: initial_alertsState_def sample_alert_def)
  show ?thesis
    using h1 h2 addAlert_existing_id_replaces [OF h1 h2]
    by (simp add: initial_alertsState_def sample_alert_def)
qed

text \<open>Whatever the id, \<open>addAlert\<close> keeps the keys of the registry unique.\<close>

lemma addAlert_keys_unique:
  "distinct (map fst st) \<Longrightarrow> distinct (map fst (addAlert alert st))"
  unfolding addAlert_def by (rule distinct_js_put)


section \<open>Properties of the backend client\<close>

text \<open>
  Claim C9. \<open>getUserDataForFarm\<close> never returns \<open>null\<close>: when the backend's answer holds
  \<open>null\<close> for the farm user, the result is the default record with amount, beetsHarvested
  and rewardDebt \<open>'0'\<close>, empty id, address and timestamp, and the requested farm id; a
  record in the answer is returned as it is.
\<close>

theorem getUserDataForFarm_never_null:
  "getUserDataForFarm farm userAddress response \<noteq> Inr None
   \<and> getUserDataForFarm farm userAddress (Inr (Some None))
       = Inr (Some \<lparr>fu_id = '''', fu_address = '''', amount = ''0'', beetsHarvested = ''0'',
                     farmId = farm, rewardDebt = ''0'', fu_timestamp = ''''\<rparr>)
   \<and> getUserDataForFarm farm userAddress (Inr (Some (Some u))) = Inr (Some u)"
  by (simp add: getUserDataForFarm_def split: sum.splits option.splits)

lemmas sample_addresses =
  sample_WFTM_def sample_WFTM_checksum_def sample_USDC_def sample_USDC_checksum_def
  sample_BEETS_def sample_BEETS_checksum_def

subsection \<open>getTokenPrices\<close>

lemma dom_tokenPrices_loop:
  "dom (tokenPrices_loop getAddress tokenPrices result)
     = dom result \<union> {c. \<exists>tp \<in> set tokenPrices. getAddress (tp_address tp) = Some c}"
proof (induction tokenPrices arbitrary: result)
  case Nil
  show ?case by simp
next
  case (Cons tp rest)
  show ?case
  proof (cases "getAddress (tp_address tp)")
    case None
    then show ?thesis using Cons.IH [of result] by (auto simp: isAddress_def)
  next
    case (Some c)
    define result' where "result' = result(c \<mapsto> usd_price (tp_price tp))"
    have "tokenPrices_loop getAddress (tp # rest) result = tokenPrices_loop getAddress rest result'"
      using Some by (simp add: isAddress_def result'_def)
    moreover have "dom result' = insert c (dom result)"
      by (simp add: result'_def)
    ultimately show ?thesis
      using Cons.IH [of result'] Some by auto
  qed
qed

lemma vals_tokenPrices_loop:
  "tokenPrices_loop getAddress tokenPrices result c = Some p \<Longrightarrow>
     result c = Some p \<or> (\<exists>tp \<in> set tokenPrices. getAddress (tp_address tp) = Some c \<and> p = usd_price (tp_price tp))"
proof (induction tokenPrices arbitrary: result)
  case Nil
  then show ?case by simp
next
  case (Cons tp rest)
  show ?case
  proof (cases "getAddress (tp_address tp)")
    case None
    then show ?thesis using Cons.IH [of result] Cons.prems by (auto simp: isAddress_def)
  next
    case (Some d)
    define result' where "result' = result(d \<mapsto> usd_price (tp_price tp))"
    have "tokenPrices_loop getAddress (tp # rest) result = tokenPrices_loop getAddress rest result'"
      using Some by (simp add: isAddress_def result'_def)
    then have "tokenPrices_loop getAddress rest result' c = Some p"
      using Cons.prems by simp
    then have "result' c = Some p
       \<or> (\<exists>tp \<in> set rest. getAddress (tp_address tp) = Some c \<and> p = usd_price (tp_price tp))"
      by (rule Cons.IH)
    moreover have "result c = Some p \<or> (d = c \<and> p = usd_price (tp_price tp))"
      if "result' c = Some p"
      using that by (cases "c = d") (simp_all add: result'_def)
    ultimately show ?thesis
      using Some by auto
  qed
qed

text \<open>
  Claim C10. \<open>getTokenPrices\<close> returns the empty map when the answer is absent. Otherwise
  it returns a map whose keys are exactly the checksum-formatted forms of the valid addresses
  among the entries (an entry whose address is not valid leaves no trace), and each key's
  price is that of an entry with this address.
\<close>

theorem getTokenPrices_keys:
  "getTokenPrices getAddress (Inr None) = Inr Map.empty
   \<and> (\<exists>result. getTokenPrices getAddress (Inr (Some tokenPrices)) = Inr result
        \<and> dom result = {c. \<exists>tp \<in> set tokenPrices. getAddress (tp_address tp) = Some c}
        \<and> (\<forall>c p. result c = Some p \<longrightarrow>
              (\<exists>tp \<in> set tokenPrices. isAddress getAddress (tp_address tp)
                 \<and> getAddress (tp_address tp) = Some c \<and> p = usd_price (tp_price tp))))"
proof -
  have "\<exists>tp \<in> set tokenPrices. isAddress getAddress (tp_address tp)
                 \<and> getAddress (tp_address tp) = Some c \<and> p = usd_price (tp_price tp)"
    if "tokenPrices_loop getAddress tokenPrices Map.empty c = Some p" for c p
    using vals_tokenPrices_loop [OF that] by (auto simp: isAddress_def)
  then show ?thesis
    by (simp add: getTokenPrices_def dom_tokenPrices_loop)
qed

theorem getTokenPrices_keys_witness:
  "getTokenPrices sample_getAddress
     (Inr (Some [sample_tokenPrice sample_WFTM 2, sample_tokenPrice ''wftm'' 7,
                 sample_tokenPrice sample_WFTM_checksum 3]))
   = Inr (map_of [(sample_WFTM_checksum, usd_price 3)])"
  using getTokenPrices_keys [of sample_getAddress
      "[sample_tokenPrice sample_WFTM 2, sample_tokenPrice ''wftm'' 7,
        sample_tokenPrice sample_WFTM_checksum 3]"]
  by (simp add: getTokenPrices_def isAddress_def sample_getAddress_def sample_tokenPrice_def
        sample_addresses fun_eq_iff)

subsection \<open>getHistoricalTokenPrices\<close>

lemma keyBy_Nil: "keyBy f [] = Map.empty"
  by (simp add: keyBy_def)

lemma keyBy_snoc: "keyBy f (xs @ [x]) = (keyBy f xs)(f x \<mapsto> x)"
  by (simp add: keyBy_def)

lemma dom_keyBy: "dom (keyBy f xs) = f ` set xs"
proof (induction xs rule: rev_induct)
  case Nil
  show ?case by (simp add: keyBy_Nil)
next
  case (snoc x xs)
  have "dom (keyBy f (xs @ [x])) = insert (f x) (dom (keyBy f xs))"
    by (simp add: keyBy_snoc)
  then show ?case by (simp add: snoc.IH)
qed

lemma keyBy_key: "keyBy f xs k = Some x \<Longrightarrow> x \<in> set xs \<and> f x = k"
proof (induction xs rule: rev_induct)
  case Nil
  then show ?case by (simp add: keyBy_Nil)
next
  case (snoc y ys)
  then show ?case by (cases "f y = k") (simp_all add: keyBy_snoc)
qed

lemma price_row_ok:
  "\<forall>a \<in> set as. m a \<noteq> None \<Longrightarrow>
     price_row m t as = Inr (map (\<lambda>a. price_found (the (m a)) t) as)"
  by (induction as) (auto simp: price_at_def)

lemma price_row_throws:
  "\<exists>a \<in> set as. m a = None \<Longrightarrow> price_row m t as = Inl TypeError"
proof (induction as)
  case Nil
  then show ?case by simp
next
  case (Cons a as)
  show ?case
  proof (cases "m a")
    case None
    then show ?thesis by (simp add: price_at_def)
  next
    case (Some series)
    then have "\<exists>a \<in> set as. m a = None"
      using Cons.prems by auto
    then have "price_row m t as = Inl TypeError"
      by (rule Cons.IH)
    then show ?thesis by (simp add: price_at_def Some)
  qed
qed

lemma historical_loop_ok:
  "\<forall>a \<in> set as. m a \<noteq> None \<Longrightarrow>
     historical_loop as m ts result =
       Inr (\<lambda>t. if t \<in> set ts then Some (map (\<lambda>a. price_found (the (m a)) t) as) else result t)"
proof (induction ts arbitrary: result)
  case Nil
  show ?case by simp
next
  case (Cons t ts)
  have "price_row m t as = Inr (map (\<lambda>a. price_found (the (m a)) t) as)"
    using Cons.prems by (rule price_row_ok)
  then show ?case
    using Cons.IH [OF Cons.prems] by (simp add: fun_eq_iff)
qed

lemma historical_loop_throws:
  "\<exists>a \<in> set as. m a = None \<Longrightarrow> ts \<noteq> [] \<Longrightarrow> historical_loop as m ts result = Inl TypeError"
  by (cases ts) (simp_all add: price_row_throws)

lemma all_series_iff:
  "(\<forall>a \<in> set (map toLowerCase addresses). keyBy htp_address tokenPrices a \<noteq> None)
     \<longleftrightarrow> (\<forall>a \<in> set addresses. toLowerCase a \<in> htp_address ` set tokenPrices)"
  using dom_keyBy [of htp_address tokenPrices] by (auto simp: dom_def)

lemma getHistoricalTokenPrices_ok:
  assumes "\<forall>a \<in> set addresses. toLowerCase a \<in> htp_address ` set tokenPrices"
  shows "getHistoricalTokenPrices addresses (Inr (Some tokenPrices)) =
           Inr (\<lambda>t. if t \<in> set (timestamps_of tokenPrices)
                    then Some (map (\<lambda>a. price_found (the (keyBy htp_address tokenPrices a)) t)
                                 (map toLowerCase addresses))
                    else None)"
proof -
  have "\<forall>a \<in> set (map toLowerCase addresses). keyBy htp_address tokenPrices a \<noteq> None"
    using assms by (simp only: all_series_iff)
  from historical_loop_ok [OF this] show ?thesis
    by (simp add: getHistoricalTokenPrices_def)
qed

lemma getHistoricalTokenPrices_no_timestamps:
  "timestamps_of tokenPrices = [] \<Longrightarrow>
     getHistoricalTokenPrices addresses (Inr (Some tokenPrices)) = Inr Map.empty"
  by (simp add: getHistoricalTokenPrices_def)

lemma getHistoricalTokenPrices_throws:
  assumes "\<exists>a \<in> set addresses. toLowerCase a \<notin> htp_address ` set tokenPrices"
    and "timestamps_of tokenPrices \<noteq> []"
  shows "getHistoricalTokenPrices addresses (Inr (Some tokenPrices)) = Inl TypeError"
proof -
  have "\<not> (\<forall>a \<in> set (map toLowerCase addresses). keyBy htp_address tokenPrices a \<noteq> None)"
    using assms(1) by (simp only: all_series_iff) simp
  then have "\<exists>a \<in> set (map toLowerCase addresses). keyBy htp_address tokenPrices a = None"
    by auto
  from historical_loop_throws [OF this assms(2)] show ?thesis
    by (simp add: getHistoricalTokenPrices_def)
qed



text \<open>\<open>keyBy\<close> keeps, for each key, the last element that has it.\<close>

lemma keyBy_last: "keyBy f xs k = find (\<lambda>x. f x = k) (rev xs)"
proof (induction xs rule: rev_induct)
  case Nil
  show ?case by (simp add: keyBy_Nil)
next
  case (snoc x xs)
  then show ?case by (simp add: keyBy_snoc)
qed


lemma timestamps_of_empty:
  "(timestamps_of tokenPrices = [])
     = (case tokenPrices of [] \<Rightarrow> True | first # _ \<Rightarrow> prices first = [])"
  by (simp add: timestamps_of_def split: list.splits)






text \<open>
  Claim C8, as the code has it. The lookup does not return a result in three cases, and
  returns one in every other case: when the request to the backend fails, its error is
  re-thrown; when the answer's \<open>data\<close> is \<open>null\<close>, taking \<open>tokenPrices\<close> out of it throws a
  \<open>TypeError\<close>; and when the answer is a list of series, a \<open>TypeError\<close> is thrown exactly
  when the first series of the answer is not empty and some requested (lower-cased) address
  is the address of no series in the answer. Such an input exists: the answer to a request
  for WFTM and USDC that holds a WFTM series only.
\<close>

theorem historical_prices_missing_series_throws:
  "getHistoricalTokenPrices addresses (Inl e) = (Inl e :: error + 'ts HistoricalPrices)
   \<and> getHistoricalTokenPrices addresses (Inr None) = (Inl TypeError :: error + 'ts HistoricalPrices)
   \<and> (getHistoricalTokenPrices addresses (Inr (Some tokenPrices))
        = (Inl TypeError :: error + 'ts HistoricalPrices))
     = ((case tokenPrices of [] \<Rightarrow> False | first # _ \<Rightarrow> prices first \<noteq> [])
        \<and> (\<exists>a \<in> set addresses. toLowerCase a \<notin> htp_address ` set tokenPrices))
   \<and> (\<exists>result. getHistoricalTokenPrices addresses (Inr (Some tokenPrices)) = Inr result)
     = ((case tokenPrices of [] \<Rightarrow> True | first # _ \<Rightarrow> prices first = [])
        \<or> (\<forall>a \<in> set addresses. toLowerCase a \<in> htp_address ` set tokenPrices))"
proof -
  have e: "(case tokenPrices of [] \<Rightarrow> False | first # _ \<Rightarrow> prices first \<noteq> [])
             = (timestamps_of tokenPrices \<noteq> [])"
    by (simp add: timestamps_of_def split: list.splits)
  have outside:
    "getHistoricalTokenPrices addresses (Inl e) = (Inl e :: error + 'ts HistoricalPrices)"
    "getHistoricalTokenPrices addresses (Inr None) = (Inl TypeError :: error + 'ts HistoricalPrices)"
    by (simp_all add: getHistoricalTokenPrices_def)
  have "(getHistoricalTokenPrices addresses (Inr (Some tokenPrices)) = Inl TypeError)
     = (timestamps_of tokenPrices \<noteq> []
        \<and> (\<exists>a \<in> set addresses. toLowerCase a \<notin> htp_address ` set tokenPrices))
   \<and> (\<exists>result. getHistoricalTokenPrices addresses (Inr (Some tokenPrices)) = Inr result)
     = (timestamps_of tokenPrices = []
        \<or> (\<forall>a \<in> set addresses. toLowerCase a \<in> htp_address ` set tokenPrices))"
  proof (cases "timestamps_of tokenPrices = []")
    case True
    then show ?thesis
      using getHistoricalTokenPrices_no_timestamps [of tokenPrices addresses] by simp
  next
    case False
    show ?thesis
    proof (cases "\<forall>a \<in> set addresses. toLowerCase a \<in> htp_address ` set tokenPrices")
      case True
      then show ?thesis
        using getHistoricalTokenPrices_ok [OF True] False by simp
    next
      case missing: False
      then have "\<exists>a \<in> set addresses. toLowerCase a \<notin> htp_address ` set tokenPrices" by simp
      from getHistoricalTokenPrices_throws [OF this False] show ?thesis
        using False missing by simp
    qed
  qed
  then show ?thesis
    using outside by (simp add: timestamps_of_empty e)
qed

theorem historical_prices_missing_series_throws_witness:
  "prices (sample_series sample_WFTM [(1, 3), (2, 4)]) \<noteq> []
   \<and> toLowerCase sample_USDC \<notin> htp_address ` set [sample_series sample_WFTM [(1, 3), (2, 4)]]
   \<and> getHistoricalTokenPrices [sample_WFTM, sample_USDC]
         (Inr (Some [sample_series sample_WFTM [(1, 3), (2, 4)]]))
       = (Inl TypeError :: error + int HistoricalPrices)
   \<and> getHistoricalTokenPrices [sample_WFTM, sample_USDC] (Inr None)
       = (Inl TypeError :: error + int HistoricalPrices)
   \<and> getHistoricalTokenPrices [sample_WFTM, sample_USDC] (Inl TransportError)
       = (Inl TransportError :: error + int HistoricalPrices)"
proof -
  have "prices (sample_series sample_WFTM [(1, 3), (2, 4)]) \<noteq> []"
    by (simp add: sample_series_def)
  moreover have "toLowerCase sample_USDC \<notin> htp_address ` set [sample_series sample_WFTM [(1, 3), (2, 4)]]"
    by (simp add: sample_series_def toLowerCase_def toLowerChar_def sample_addresses)
  ultimately show ?thesis
    using historical_prices_missing_series_throws
      [of "[sample_WFTM, sample_USDC]" TransportError "[sample_series sample_WFTM [(1, 3), (2, 4)]]"]
    by simp
qed

text \<open>
  A non-empty series of the first requested token is not enough: asked for WFTM, USDC and
  BEETS and answered with an empty USDC series before the WFTM series, the lookup finds no
  timestamps and returns the empty result, although BEETS has no series.
\<close>

theorem historical_prices_first_requested_nonempty_counterexample:
  "keyBy htp_address [sample_series sample_USDC [], sample_series sample_WFTM [(1, 3), (2, 4)]]
       (toLowerCase sample_WFTM)
     = Some (sample_series sample_WFTM [(1, 3), (2, 4)])
   \<and> prices (sample_series sample_WFTM [(1, 3), (2, 4)]) \<noteq> []
   \<and> toLowerCase sample_BEETS
       \<notin> htp_address ` set [sample_series sample_USDC [], sample_series sample_WFTM [(1, 3), (2, 4)]]
   \<and> getHistoricalTokenPrices [sample_WFTM, sample_USDC, sample_BEETS]
         (Inr (Some [sample_series sample_USDC [], sample_series sample_WFTM [(1, 3), (2, 4)]]))
       = Inr (map_of [])"
  by (simp add: getHistoricalTokenPrices_def timestamps_of_def keyBy_def sample_series_def
        sample_entry_def toLowerCase_def toLowerChar_def sample_addresses)


section \<open>Properties of the user-pools query\<close>

subsection \<open>The samples\<close>

lemma sample_lowercase:
  "toLowerCase sample_WFTM = sample_WFTM" "toLowerCase sample_USDC = sample_USDC"
  "toLowerCase sample_BEETS = sample_BEETS"
  "toLowerCase sample_WFTM_checksum = sample_WFTM" "toLowerCase sample_USDC_checksum = sample_USDC"
  "toLowerCase sample_BEETS_checksum = sample_BEETS"
  by (simp_all add: toLowerCase_def toLowerChar_def sample_WFTM_def sample_WFTM_checksum_def
      sample_USDC_def sample_USDC_checksum_def sample_BEETS_def sample_BEETS_checksum_def)

lemma sample_addressFor_ids:
  "sample_addressFor sample_WFTM_pool_id = sample_WFTM_checksum"
  "sample_addressFor sample_USDC_pool_id = sample_USDC_checksum"
  "sample_addressFor sample_BEETS_pool_id = sample_BEETS_checksum"
  by (simp_all add: sample_addressFor_def sample_getAddress_def sample_WFTM_pool_id_def
      sample_USDC_pool_id_def sample_BEETS_pool_id_def sample_WFTM_def sample_WFTM_checksum_def
      sample_USDC_def sample_USDC_checksum_def sample_BEETS_def sample_BEETS_checksum_def)

lemma sample_distinct:
  "sample_WFTM \<noteq> sample_USDC" "sample_WFTM \<noteq> sample_BEETS" "sample_USDC \<noteq> sample_BEETS"
  "sample_WFTM_checksum \<noteq> sample_USDC_checksum" "sample_BEETS_checksum \<noteq> sample_BEETS"
  "sample_WFTM_checksum \<noteq> sample_WFTM"
  by (simp_all add: sample_WFTM_def sample_WFTM_checksum_def
      sample_USDC_def sample_USDC_checksum_def sample_BEETS_def sample_BEETS_checksum_def)

lemma sample_getAddress_values:
  "sample_getAddress sample_WFTM = Some sample_WFTM_checksum"
  "sample_getAddress sample_USDC = Some sample_USDC_checksum"
  "sample_getAddress sample_BEETS = Some sample_BEETS_checksum"
  by (simp_all add: sample_getAddress_def sample_addresses)

lemma sample_pool_address:
  "address (sample_linearPool sample_BEETS_pool_id ts w) = sample_BEETS"
  "address (sample_linearPool (sample_BEETS @ ''000000000000000000000004'') ts w) = sample_BEETS"
  by (simp_all add: sample_linearPool_def sample_pool_def sample_BEETS_pool_id_def sample_BEETS_def)

lemma sample_linearPool_fields:
  "poolType (sample_linearPool i ts w) = ''Linear''"
  "tokensList (sample_linearPool i ts w) = ts"
  "wrappedIndex (sample_linearPool i ts w) = w"
  "mainIndex (sample_linearPool i ts w) = 0"
  "tokens (sample_linearPool i ts w) = []"
  by (simp_all add: sample_linearPool_def sample_pool_def)

lemma sample_pool_fields:
  "pool_id (sample_pool i t ts l s) = i" "poolType (sample_pool i t ts l s) = t"
  "tokensList (sample_pool i t ts l s) = ts" "linearPools (sample_pool i t ts l s) = None"
  "totalLiquidity (sample_pool i t ts l s) = Finite l" "totalShares (sample_pool i t ts l s) = Finite s"
  by (simp_all add: sample_pool_def)

lemma sample_pool_filtered:
  "(sample_pool i t ts l s)\<lparr>tokensList := ts'\<rparr> = sample_pool i t ts' l s"
  by (simp add: sample_pool_def)

lemma sample_collaborators_fields:
  "c_isStablePhantom sample_collaborators = sample_isStablePhantom"
  "c_lpTokensFor sample_collaborators = sample_lpTokensFor"
  "c_addressFor sample_collaborators = sample_addressFor"
  "c_decorate sample_collaborators = sample_decorate"
  "c_getAddress sample_collaborators = sample_getAddress"
  "c_rnd sample_collaborators = ROUND_HALF_UP 20"
  "c_refetch sample_collaborators = sample_refetch"
  "c_awaited sample_collaborators = None"
  by (simp_all add: sample_collaborators_def)

lemma sample_pool_ids:
  "sample_WFTM_pool_id \<noteq> sample_BEETS_pool_id" "sample_BEETS_pool_id \<noteq> sample_WFTM_pool_id"
  "sample_USDC_pool_id \<noteq> sample_WFTM_pool_id" "sample_USDC_pool_id \<noteq> sample_BEETS_pool_id"
  by (simp_all add: sample_WFTM_pool_id_def sample_BEETS_pool_id_def sample_USDC_pool_id_def
      sample_WFTM_def sample_BEETS_def sample_USDC_def)

lemma sample_rounding:
  "ROUND_HALF_UP 20 (5 / 2) = 5 / 2"
  "ROUND_HALF_UP 20 (1 / 3) = 33333333333333333333 / 100000000000000000000"
  by code_simp+

subsection \<open>Arrays\<close>

lemma indexOf_absent: "x \<notin> set xs \<Longrightarrow> indexOf xs x = - 1"
  by (induction xs) (auto simp: Let_def)

lemma indexOf_present:
  "x \<in> set xs \<Longrightarrow> 0 \<le> indexOf xs x \<and> nat (indexOf xs x) < length xs \<and> xs ! nat (indexOf xs x) = x"
proof (induction xs)
  case Nil
  then show ?case by simp
next
  case (Cons y ys)
  show ?case
  proof (cases "y = x")
    case True
    then show ?thesis by simp
  next
    case False
    then have "x \<in> set ys" using Cons.prems by simp
    from Cons.IH [OF this] show ?thesis
      using False by (simp add: Let_def nat_add_distrib)
  qed
qed

lemma indexOf_differ:
  assumes "x \<in> set xs" and "y \<noteq> x"
  shows "indexOf xs y \<noteq> indexOf xs x"
proof (cases "y \<in> set xs")
  case True
  show ?thesis
    using indexOf_present [OF True] indexOf_present [OF assms(1)] assms(2) by metis
next
  case False
  then show ?thesis
    using indexOf_absent [OF False] indexOf_present [OF assms(1)] by simp
qed

lemma js_nth_set_same: "0 \<le> i \<Longrightarrow> js_nth (js_array_set xs i v) i = Some (Some v)"
  by (auto simp: js_nth_def js_array_set_def nth_append)

lemma js_nth_set_other:
  "j \<noteq> i \<Longrightarrow> js_nth xs j = Some u \<Longrightarrow> js_nth (js_array_set xs i v) j = Some u"
  by (auto simp: js_nth_def js_array_set_def nth_append split: if_splits)

subsection \<open>getLinearPoolAttrs\<close>

lemma linearPool_step_result:
  assumes "linearPool_step getAddress linearPool (pool, m) = Inr (pool', m')"
  shows "\<exists>t w. js_nth (tokensList linearPool) (wrappedIndex linearPool) = Some t
           \<and> getAddress t = Some w
           \<and> pool' = pool\<lparr>wrappedTokens :=
                 Some (js_array_set (wrapped_array pool)
                         (indexOf (tokensList pool) (toLowerCase (address linearPool))) w)\<rparr>"
  using assms
  by (auto simp: linearPool_step_def Let_def split: option.splits sum.splits)

lemma linearPools_loop_append:
  "linearPools_loop getAddress (xs @ ys) st =
     (case linearPools_loop getAddress xs st of
        Inl e \<Rightarrow> Inl e
      | Inr st' \<Rightarrow> linearPools_loop getAddress ys st')"
  by (induction xs arbitrary: st) (auto split: sum.splits)

lemma linearPools_loop_keeps:
  assumes "linearPools_loop getAddress lps (pool, m) = Inr (pool', m')"
  shows "tokensList pool' = tokensList pool \<and> pool_id pool' = pool_id pool
       \<and> (js_nth (wrapped_array pool) j = Some u
            \<and> (\<forall>lp \<in> set lps. indexOf (tokensList pool) (toLowerCase (address lp)) \<noteq> j)
          \<longrightarrow> js_nth (wrapped_array pool') j = Some u)"
  using assms
proof (induction lps arbitrary: pool m)
  case Nil
  then show ?case by simp
next
  case (Cons lp lps)
  from Cons.prems obtain pool1 m1 where
    step: "linearPool_step getAddress lp (pool, m) = Inr (pool1, m1)"
    and rest: "linearPools_loop getAddress lps (pool1, m1) = Inr (pool', m')"
    by (auto split: sum.splits)
  from linearPool_step_result [OF step] obtain w where
    p1: "pool1 = pool\<lparr>wrappedTokens :=
                 Some (js_array_set (wrapped_array pool)
                         (indexOf (tokensList pool) (toLowerCase (address lp))) w)\<rparr>"
    by blast
  have w1: "wrapped_array pool1 = js_array_set (wrapped_array pool)
                         (indexOf (tokensList pool) (toLowerCase (address lp))) w"
    by (simp add: p1 wrapped_array_def)
  have t1: "tokensList pool1 = tokensList pool" "pool_id pool1 = pool_id pool"
    by (simp_all add: p1)
  have keep: "js_nth (wrapped_array pool1) j = Some u"
    if "js_nth (wrapped_array pool) j = Some u"
      "indexOf (tokensList pool) (toLowerCase (address lp)) \<noteq> j"
    using that by (simp add: w1 js_nth_set_other)
  show ?case
    using Cons.IH [OF rest] keep by (simp add: t1)
qed

lemma getLinearPoolAttrs_result:
  assumes "getLinearPoolAttrs getAddress (Inr fetchedPools) pool = Inr pool'"
  shows "\<exists>pool1 m. linearPools_loop getAddress
                      (filter (\<lambda>p. poolType p = ''Linear'') fetchedPools) (pool, Map.empty)
                    = Inr (pool1, m)
           \<and> tokensList pool' = tokensList pool1 \<and> pool_id pool' = pool_id pool1
           \<and> wrapped_array pool' = wrapped_array pool1"
  using assms
  by (auto simp: getLinearPoolAttrs_def wrapped_array_def Let_def split: sum.splits)

lemma sample_wrapped:
  "getLinearPoolAttrs sample_getAddress
     (Inr [sample_linearPool sample_BEETS_pool_id [sample_BEETS, sample_WFTM] 1])
     (sample_pool sample_WFTM_pool_id ''StablePhantom'' [sample_USDC, sample_BEETS] 0 0)
   = Inr ((sample_pool sample_WFTM_pool_id ''StablePhantom'' [sample_USDC, sample_BEETS] 0 0)
           \<lparr>wrappedTokens := Some [None, Some sample_WFTM_checksum],
            linearPoolTokensMap := Some Map.empty,
            linearPoolToMainTokenMap := Some [sample_BEETS \<mapsto> Some sample_BEETS]\<rparr>)"
  by (simp add: getLinearPoolAttrs_def linearPool_step_def sample_linearPool_fields
      sample_pool_address sample_lowercase sample_getAddress_values sample_distinct
      js_nth_def js_array_set_def wrapped_array_def mainTokenMap_def sample_pool_def)

text \<open>
  Claim C3, as the code has it. When \<open>getLinearPoolAttrs\<close> returns, the parent's token list
  is unchanged, and for every fetched Linear pool whose lower-cased address is in that list
  and which is the last fetched Linear pool with this lower-cased address, the linear pool's
  token list has an entry at its \<open>wrappedIndex\<close>, this entry is a valid address, and the
  parent's \<open>wrappedTokens\<close> holds its checksum-formatted form at the position of the linear
  pool's lower-cased address in the parent's token list.
\<close>

theorem wrappedTokens_at_linear_pool_position:
  assumes "getLinearPoolAttrs getAddress (Inr fetchedPools) pool = Inr pool'"
    and "fetchedPools = before @ linearPool # after"
    and "poolType linearPool = ''Linear''"
    and "toLowerCase (address linearPool) \<in> set (tokensList pool)"
    and "\<forall>lp \<in> set after. poolType lp = ''Linear''
           \<longrightarrow> toLowerCase (address lp) \<noteq> toLowerCase (address linearPool)"
  shows "tokensList pool' = tokensList pool
       \<and> (\<exists>t w. js_nth (tokensList linearPool) (wrappedIndex linearPool) = Some t
                \<and> getAddress t = Some w
                \<and> js_nth (wrapped_array pool')
                      (indexOf (tokensList pool') (toLowerCase (address linearPool)))
                    = Some (Some w))"
proof -
  let ?lin = "filter (\<lambda>p. poolType p = ''Linear'')"
  let ?idx = "indexOf (tokensList pool) (toLowerCase (address linearPool))"
  from getLinearPoolAttrs_result [OF assms(1)] obtain pool3 m3 where
    loop: "linearPools_loop getAddress (?lin fetchedPools) (pool, Map.empty) = Inr (pool3, m3)"
    and same: "tokensList pool' = tokensList pool3" "wrapped_array pool' = wrapped_array pool3"
    by blast
  have split: "?lin fetchedPools = ?lin before @ linearPool # ?lin after"
    using assms(2,3) by simp
  from loop obtain pool1 m1 where
    l1: "linearPools_loop getAddress (?lin before) (pool, Map.empty) = Inr (pool1, m1)"
    and l2: "linearPools_loop getAddress (linearPool # ?lin after) (pool1, m1) = Inr (pool3, m3)"
    unfolding split linearPools_loop_append by (auto split: sum.splits)
  from l2 obtain pool2 m2 where
    step: "linearPool_step getAddress linearPool (pool1, m1) = Inr (pool2, m2)"
    and l3: "linearPools_loop getAddress (?lin after) (pool2, m2) = Inr (pool3, m3)"
    by (auto split: sum.splits)
  have t1: "tokensList pool1 = tokensList pool"
    using linearPools_loop_keeps [OF l1] by simp
  from linearPool_step_result [OF step] obtain t w where
    tw: "js_nth (tokensList linearPool) (wrappedIndex linearPool) = Some t" "getAddress t = Some w"
    and p2: "pool2 = pool1\<lparr>wrappedTokens :=
                 Some (js_array_set (wrapped_array pool1) ?idx w)\<rparr>"
    unfolding t1 by blast
  have t2: "tokensList pool2 = tokensList pool"
    by (simp add: p2 t1)
  have idx: "0 \<le> ?idx"
    using indexOf_present [OF assms(4)] by simp
  have "js_nth (wrapped_array pool2) ?idx = Some (Some w)"
    using idx by (simp add: p2 wrapped_array_def js_nth_set_same)
  moreover have "\<forall>lp \<in> set (?lin after).
      indexOf (tokensList pool2) (toLowerCase (address lp)) \<noteq> ?idx"
    using assms(5) indexOf_differ [OF assms(4)] by (simp add: t2)
  ultimately have "js_nth (wrapped_array pool3) ?idx = Some (Some w)"
    using linearPools_loop_keeps [OF l3, of ?idx "Some w"] by simp
  moreover have "tokensList pool3 = tokensList pool"
    using linearPools_loop_keeps [OF l3] t2 by simp
  ultimately show ?thesis
    using tw same by auto
qed

theorem wrappedTokens_at_linear_pool_position_witness:
  "getLinearPoolAttrs sample_getAddress
     (Inr ([] @ sample_linearPool sample_BEETS_pool_id [sample_BEETS, sample_WFTM] 1 # []))
     (sample_pool sample_WFTM_pool_id ''StablePhantom'' [sample_USDC, sample_BEETS] 0 0)
   = Inr ((sample_pool sample_WFTM_pool_id ''StablePhantom'' [sample_USDC, sample_BEETS] 0 0)
           \<lparr>wrappedTokens := Some [None, Some sample_WFTM_checksum],
            linearPoolTokensMap := Some Map.empty,
            linearPoolToMainTokenMap := Some [sample_BEETS \<mapsto> Some sample_BEETS]\<rparr>)
   \<and> poolType (sample_linearPool sample_BEETS_pool_id [sample_BEETS, sample_WFTM] 1) = ''Linear''
   \<and> toLowerCase (address (sample_linearPool sample_BEETS_pool_id [sample_BEETS, sample_WFTM] 1))
       \<in> set (tokensList (sample_pool sample_WFTM_pool_id ''StablePhantom''
                               [sample_USDC, sample_BEETS] 0 0))
   \<and> js_nth (wrapped_array
               ((sample_pool sample_WFTM_pool_id ''StablePhantom'' [sample_USDC, sample_BEETS] 0 0)
                  \<lparr>wrappedTokens := Some [None, Some sample_WFTM_checksum],
                   linearPoolTokensMap := Some Map.empty,
                   linearPoolToMainTokenMap := Some [sample_BEETS \<mapsto> Some sample_BEETS]\<rparr>))
        (indexOf [sample_USDC, sample_BEETS] sample_BEETS)
       = Some (Some sample_WFTM_checksum)"
proof -
  let ?L = "sample_linearPool sample_BEETS_pool_id [sample_BEETS, sample_WFTM] 1"
  let ?P = "sample_pool sample_WFTM_pool_id ''StablePhantom'' [sample_USDC, sample_BEETS] 0 0"
  have h1: "getLinearPoolAttrs sample_getAddress (Inr ([] @ ?L # [])) ?P
       = Inr (?P\<lparr>wrappedTokens := Some [None, Some sample_WFTM_checksum],
            linearPoolTokensMap := Some Map.empty,
            linearPoolToMainTokenMap := Some [sample_BEETS \<mapsto> Some sample_BEETS]\<rparr>)"
    using sample_wrapped by simp
  have h3: "poolType ?L = ''Linear''"
    by (simp add: sample_linearPool_fields)
  have h4: "toLowerCase (address ?L) \<in> set (tokensList ?P)"
    by (simp add: sample_pool_address sample_lowercase sample_pool_def)
  have h5: "\<forall>lp \<in> set []. poolType lp = ''Linear''
           \<longrightarrow> toLowerCase (address lp) \<noteq> toLowerCase (address ?L)"
    by simp
  show ?thesis
    using h1 h3 h4 wrappedTokens_at_linear_pool_position [OF h1 refl h3 h4 h5]
    by (simp add: sample_linearPool_fields sample_pool_address sample_lowercase
        sample_getAddress_values js_nth_def sample_pool_def)
qed

text \<open>
  When two fetched Linear pools have the same address, the later one overwrites the entry of
  the earlier one: the parent's \<open>wrappedTokens\<close> holds the wrapped token of the second
  pool (USDC) at the position of the address, not that of the first (WFTM).
\<close>

theorem wrappedTokens_overwritten_counterexample:
  "map_sum id wrappedTokens
     (getLinearPoolAttrs sample_getAddress
        (Inr [sample_linearPool sample_BEETS_pool_id [sample_WFTM] 0,
              sample_linearPool (sample_BEETS @ ''000000000000000000000004'') [sample_USDC] 0])
        (sample_pool sample_WFTM_pool_id ''StablePhantom'' [sample_BEETS] 0 0))
   = Inr (Some [Some sample_USDC_checksum])
   \<and> poolType (sample_linearPool sample_BEETS_pool_id [sample_WFTM] 0) = ''Linear''
   \<and> indexOf (tokensList (sample_pool sample_WFTM_pool_id ''StablePhantom'' [sample_BEETS] 0 0))
        (toLowerCase (address (sample_linearPool sample_BEETS_pool_id [sample_WFTM] 0))) = 0
   \<and> js_nth (tokensList (sample_linearPool sample_BEETS_pool_id [sample_WFTM] 0))
        (wrappedIndex (sample_linearPool sample_BEETS_pool_id [sample_WFTM] 0)) = Some sample_WFTM
   \<and> sample_getAddress sample_WFTM = Some sample_WFTM_checksum
   \<and> sample_WFTM_checksum \<noteq> sample_USDC_checksum"
  by (simp add: getLinearPoolAttrs_def linearPool_step_def sample_linearPool_fields
      sample_pool_address sample_lowercase sample_getAddress_values sample_distinct
      js_nth_def js_array_set_def wrapped_array_def mainTokenMap_def sample_pool_def)

subsection \<open>removePreMintedBPT and the decoration loop\<close>

lemma tokensList_removePreMintedBPT:
  "tokensList (removePreMintedBPT addressFor pool)
     = filter (\<lambda>a. a \<noteq> toLowerCase (addressFor (pool_id pool))) (tokensList pool)"
  by (simp add: removePreMintedBPT_def)

lemma pool_id_removePreMintedBPT: "pool_id (removePreMintedBPT addressFor pool) = pool_id pool"
  by (simp add: removePreMintedBPT_def)

lemma decorate_pool_keeps:
  assumes "decorate_pool c i pool = Inr pool'"
  shows "pool_id pool' = pool_id pool
       \<and> tokensList pool'
           = (if c_isStablePhantom c (poolType pool)
              then tokensList (removePreMintedBPT (c_addressFor c) pool) else tokensList pool)"
proof -
  let ?pool1 = "if c_isStablePhantom c (poolType pool)
                then removePreMintedBPT (c_addressFor c) pool else pool"
  have id1: "pool_id ?pool1 = pool_id pool"
    by (simp add: pool_id_removePreMintedBPT)
  have "pool_id pool' = pool_id ?pool1 \<and> tokensList pool' = tokensList ?pool1"
  proof (cases "linearPools ?pool1 = None")
    case True
    then show ?thesis using assms by (simp add: decorate_pool_def Let_def)
  next
    case False
    then have g: "getLinearPoolAttrs (c_getAddress c) (c_refetch c i) ?pool1 = Inr pool'"
      using assms by (simp add: decorate_pool_def Let_def)
    then obtain fetchedPools where f: "c_refetch c i = Inr fetchedPools"
      by (cases "c_refetch c i") (simp_all add: getLinearPoolAttrs_def)
    from getLinearPoolAttrs_result [OF g [unfolded f]] obtain pool2 m where
      "linearPools_loop (c_getAddress c) (filter (\<lambda>p. poolType p = ''Linear'') fetchedPools)
         (?pool1, Map.empty) = Inr (pool2, m)"
      and "tokensList pool' = tokensList pool2" "pool_id pool' = pool_id pool2"
      by blast
    then show ?thesis
      using linearPools_loop_keeps [of "c_getAddress c" _ ?pool1 Map.empty pool2 m] by simp
  qed
  then show ?thesis
    using id1 by (simp split: if_splits)
qed

text \<open>
  Claim C2, as the code has it. After \<open>removePreMintedBPT\<close> the token list has no entry
  equal to the lower-cased derived address of the pool. When the entries of the token list
  are in lower case, as the subgraph writes them, no entry of the new list equals the pool's
  derived address under case-insensitive comparison; so it is for the pool that the
  decoration step of the query returns for a StablePhantom-family pool.
\<close>

theorem removePreMintedBPT_strips_own_address:
  "toLowerCase (addressFor (pool_id pool)) \<notin> set (tokensList (removePreMintedBPT addressFor pool))
   \<and> ((\<forall>a \<in> set (tokensList pool). toLowerCase a = a) \<longrightarrow>
        (\<forall>a \<in> set (tokensList (removePreMintedBPT addressFor pool)).
           toLowerCase a \<noteq> toLowerCase (addressFor (pool_id (removePreMintedBPT addressFor pool)))))
   \<and> (c_isStablePhantom c (poolType pool) \<and> decorate_pool c i pool = Inr pool'
        \<and> (\<forall>a \<in> set (tokensList pool). toLowerCase a = a) \<longrightarrow>
        (\<forall>a \<in> set (tokensList pool').
           toLowerCase a \<noteq> toLowerCase (c_addressFor c (pool_id pool'))))"
proof -
  have part: "\<forall>a \<in> set (tokensList (removePreMintedBPT f pool)).
           toLowerCase a \<noteq> toLowerCase (f (pool_id pool))"
    if "\<forall>a \<in> set (tokensList pool). toLowerCase a = a" for f
    using that by (auto simp: tokensList_removePreMintedBPT)
  have "\<forall>a \<in> set (tokensList pool'). toLowerCase a \<noteq> toLowerCase (c_addressFor c (pool_id pool'))"
    if "c_isStablePhantom c (poolType pool)" "decorate_pool c i pool = Inr pool'"
      "\<forall>a \<in> set (tokensList pool). toLowerCase a = a"
    using decorate_pool_keeps [OF that(2)] that(1) part [OF that(3), of "c_addressFor c"] by simp
  moreover have "toLowerCase (addressFor (pool_id pool))
      \<notin> set (tokensList (removePreMintedBPT addressFor pool))"
    by (simp add: tokensList_removePreMintedBPT)
  ultimately show ?thesis
    using part [of addressFor] by (simp add: pool_id_removePreMintedBPT)
qed

theorem removePreMintedBPT_strips_own_address_witness:
  "map toLowerCase [sample_WFTM, sample_BEETS] = [sample_WFTM, sample_BEETS]
   \<and> c_isStablePhantom sample_collaborators ''StablePhantom''
   \<and> decorate_pool sample_collaborators 1
         (sample_pool sample_BEETS_pool_id ''StablePhantom'' [sample_WFTM, sample_BEETS] 1 3)
       = Inr (sample_pool sample_BEETS_pool_id ''StablePhantom'' [sample_WFTM] 1 3)
   \<and> tokensList (removePreMintedBPT sample_addressFor
         (sample_pool sample_BEETS_pool_id ''StablePhantom'' [sample_WFTM, sample_BEETS] 1 3))
       = [sample_WFTM]
   \<and> toLowerCase sample_WFTM \<noteq> toLowerCase (sample_addressFor sample_BEETS_pool_id)"
proof -
  let ?P = "sample_pool sample_BEETS_pool_id ''StablePhantom'' [sample_WFTM, sample_BEETS] 1 3"
  let ?P' = "sample_pool sample_BEETS_pool_id ''StablePhantom'' [sample_WFTM] 1 3"
  have h1: "\<forall>a \<in> set (tokensList ?P). toLowerCase a = a"
    by (simp add: sample_pool_fields sample_lowercase)
  have h2: "c_isStablePhantom sample_collaborators (poolType ?P)"
    by (simp add: sample_collaborators_fields sample_isStablePhantom_def sample_pool_fields)
  have h3: "decorate_pool sample_collaborators 1 ?P = Inr ?P'"
    by (simp add: decorate_pool_def sample_collaborators_fields
      sample_isStablePhantom_def sample_pool_fields removePreMintedBPT_def sample_pool_filtered
      sample_addressFor_ids sample_lowercase sample_distinct)
  have h4: "tokensList (removePreMintedBPT sample_addressFor ?P) = [sample_WFTM]"
    by (simp add: removePreMintedBPT_def sample_pool_fields sample_pool_filtered
      sample_addressFor_ids sample_lowercase sample_distinct)
  show ?thesis
    using h1 h2 h3 h4
      removePreMintedBPT_strips_own_address [of sample_addressFor ?P sample_collaborators 1 ?P']
    by (simp add: sample_pool_fields sample_lowercase pool_id_removePreMintedBPT)
qed

text \<open>
  The entries are compared as they are with the lower-cased address: an entry that holds the
  pool's address in its checksum spelling stays in the list.
\<close>

theorem removePreMintedBPT_mixed_case_counterexample:
  "tokensList (removePreMintedBPT sample_addressFor
       (sample_pool sample_BEETS_pool_id ''StablePhantom'' [sample_WFTM, sample_BEETS_checksum] 0 0))
     = [sample_WFTM, sample_BEETS_checksum]
   \<and> toLowerCase sample_BEETS_checksum
       = toLowerCase (sample_addressFor (pool_id (removePreMintedBPT sample_addressFor
           (sample_pool sample_BEETS_pool_id ''StablePhantom''
              [sample_WFTM, sample_BEETS_checksum] 0 0))))"
  by (simp add: removePreMintedBPT_def sample_pool_def sample_addressFor_ids sample_lowercase
      sample_distinct)

subsection \<open>queryFn\<close>

lemma queryFn_result:
  assumes "queryFn c (Inr poolShares) (Inr fetchedPools) = Inr r"
  shows "\<exists>pools' decoratedPools.
           decorate_loop c 0 fetchedPools = Inr pools'
           \<and> c_awaited c = None
           \<and> c_decorate c (filter (\<lambda>pool. pool_id pool \<in> poolId ` set poolShares) pools')
               = Inr decoratedPools
           \<and> pools r = map (with_shares c poolShares) decoratedPools
           \<and> totalInvestedAmount r
               = foldl plus_bn (Finite 0) (map shares (map (with_shares c poolShares) decoratedPools))
           \<and> queried_tokens r = concat (map (pool_tokens c) pools')"
  using assms
  by (auto simp: queryFn_def Let_def split: sum.splits option.splits)

text \<open>
  The decoration loop returns one pool for each fetched pool, in the same order: what its
  body makes of that pool.
\<close>

lemma decorate_loop_pointwise:
  assumes "decorate_loop c i ps = Inr ps'"
  shows "length ps' = length ps
       \<and> (\<forall>j < length ps. decorate_pool c (i + j) (ps ! j) = Inr (ps' ! j))"
  using assms
proof (induction ps arbitrary: i ps')
  case Nil
  then show ?case by simp
next
  case (Cons p ps)
  from Cons.prems obtain p' rest' where
    p: "decorate_pool c i p = Inr p'"
    and rest: "decorate_loop c (Suc i) ps = Inr rest'"
    and ps': "ps' = p' # rest'"
    by (auto split: sum.splits)
  have ih: "length rest' = length ps
       \<and> (\<forall>j < length ps. decorate_pool c (Suc i + j) (ps ! j) = Inr (rest' ! j))"
    using rest by (rule Cons.IH)
  have "decorate_pool c (i + j) ((p # ps) ! j) = Inr (ps' ! j)" if "j < length (p # ps)" for j
  proof (cases j)
    case 0
    then show ?thesis using p ps' by simp
  next
    case (Suc k)
    then show ?thesis using ih that ps' by simp
  qed
  then show ?case using ih ps' by simp
qed

lemma decorate_loop_relation:
  assumes "decorate_loop c 0 fetchedPools = Inr pools'"
  shows "length pools' = length fetchedPools
       \<and> (\<forall>i < length fetchedPools.
             decorate_pool c i (fetchedPools ! i) = Inr (pools' ! i)
             \<and> pool_id (pools' ! i) = pool_id (fetchedPools ! i)
             \<and> tokensList (pools' ! i)
                 = (if c_isStablePhantom c (poolType (fetchedPools ! i))
                    then filter (\<lambda>a. a \<noteq> toLowerCase (c_addressFor c (pool_id (fetchedPools ! i))))
                           (tokensList (fetchedPools ! i))
                    else tokensList (fetchedPools ! i)))"
proof -
  note pw = decorate_loop_pointwise [OF assms]
  have "decorate_pool c i (fetchedPools ! i) = Inr (pools' ! i)
             \<and> pool_id (pools' ! i) = pool_id (fetchedPools ! i)
             \<and> tokensList (pools' ! i)
                 = (if c_isStablePhantom c (poolType (fetchedPools ! i))
                    then filter (\<lambda>a. a \<noteq> toLowerCase (c_addressFor c (pool_id (fetchedPools ! i))))
                           (tokensList (fetchedPools ! i))
                    else tokensList (fetchedPools ! i))"
    if "i < length fetchedPools" for i
  proof -
    have d: "decorate_pool c i (fetchedPools ! i) = Inr (pools' ! i)"
      using pw that by simp
    from decorate_pool_keeps [OF d] show ?thesis
      using d by (simp add: tokensList_removePreMintedBPT)
  qed
  then show ?thesis using pw by simp
qed

lemma map_pool_id_decorated:
  assumes "decorate_loop c 0 fetchedPools = Inr pools'"
  shows "map pool_id pools' = map pool_id fetchedPools"
  using decorate_loop_relation [OF assms] by (simp add: list_eq_iff_nth_eq)

lemma sample_decorated:
  "decorate_loop sample_collaborators 0 sample_pools =
     Inr [sample_pool sample_WFTM_pool_id ''Weighted'' [sample_WFTM, sample_USDC] 10 4,
          sample_pool sample_BEETS_pool_id ''StablePhantom'' [sample_WFTM] 1 3]"
  by (simp add: sample_pools_def decorate_pool_def sample_collaborators_fields
      sample_isStablePhantom_def sample_pool_fields removePreMintedBPT_def sample_pool_filtered
      sample_addressFor_ids sample_lowercase sample_distinct)

lemma sample_query:
  "queryFn sample_collaborators (Inr sample_poolShares) (Inr sample_pools) = Inr sample_response"
  by (simp add: queryFn_def sample_decorated sample_collaborators_fields sample_poolShares_def
      sample_poolShare_def sample_pool_fields sample_pool_ids sample_decorate_def with_shares_def
      userSharesBalance_def keyBy_def sample_rounding sample_response_def pool_tokens_def
      sample_lpTokensFor_def sample_addressFor_ids)

text \<open>
  Claim C7, as the code has it. When the query returns, there is one decorated pool for
  each fetched pool, in the same order: the pool that the body of the decoration loop makes
  of it, which has the id of the fetched pool and its token list, without the entries equal
  to the lower-cased derived address when the pool is of the StablePhantom family. The
  \<open>tokens\<close> of the result are the concatenation, in that order, of each decorated pool's
  token list, its liquidity-pool tokens and its own derived address; the addresses that
  occur in it are the union of these.
\<close>

theorem tokens_concatenation:
  assumes "queryFn c (Inr poolShares) (Inr fetchedPools) = Inr r"
  shows "\<exists>pools'. length pools' = length fetchedPools
           \<and> (\<forall>i < length fetchedPools.
                 decorate_pool c i (fetchedPools ! i) = Inr (pools' ! i)
                 \<and> pool_id (pools' ! i) = pool_id (fetchedPools ! i)
                 \<and> tokensList (pools' ! i)
                     = (if c_isStablePhantom c (poolType (fetchedPools ! i))
                        then filter (\<lambda>a. a \<noteq> toLowerCase (c_addressFor c (pool_id (fetchedPools ! i))))
                               (tokensList (fetchedPools ! i))
                        else tokensList (fetchedPools ! i)))
           \<and> queried_tokens r
               = concat (map (\<lambda>pool. tokensList pool @ c_lpTokensFor c pool
                                     @ [c_addressFor c (pool_id pool)]) pools')
           \<and> set (queried_tokens r)
               = (\<Union>pool \<in> set pools'. set (tokensList pool) \<union> set (c_lpTokensFor c pool)
                                        \<union> {c_addressFor c (pool_id pool)})"
proof -
  from queryFn_result [OF assms] obtain pools' where
    d: "decorate_loop c 0 fetchedPools = Inr pools'"
    and t: "queried_tokens r = concat (map (pool_tokens c) pools')"
    by blast
  have "pool_tokens c = (\<lambda>pool. tokensList pool @ c_lpTokensFor c pool
                                     @ [c_addressFor c (pool_id pool)])"
    by (simp add: pool_tokens_def fun_eq_iff)
  then have "queried_tokens r
               = concat (map (\<lambda>pool. tokensList pool @ c_lpTokensFor c pool
                                     @ [c_addressFor c (pool_id pool)]) pools')
           \<and> set (queried_tokens r)
               = (\<Union>pool \<in> set pools'. set (tokensList pool) \<union> set (c_lpTokensFor c pool)
                                        \<union> {c_addressFor c (pool_id pool)})"
    using t by auto
  then show ?thesis
    using decorate_loop_relation [OF d] by blast
qed

theorem tokens_concatenation_witness:
  "queryFn sample_collaborators (Inr sample_poolShares) (Inr sample_pools) = Inr sample_response
   \<and> queried_tokens sample_response
       = [sample_WFTM, sample_USDC] @ [] @ [sample_addressFor sample_WFTM_pool_id]
         @ filter (\<lambda>a. a \<noteq> toLowerCase (sample_addressFor sample_BEETS_pool_id))
             [sample_WFTM, sample_BEETS]
         @ [] @ [sample_addressFor sample_BEETS_pool_id]
   \<and> set (queried_tokens sample_response)
       = {sample_WFTM, sample_USDC, sample_WFTM_checksum, sample_BEETS_checksum}"
  using sample_query tokens_concatenation [OF sample_query]
  by (auto simp: sample_response_def sample_addressFor_ids sample_lowercase sample_distinct)

text \<open>
  No address is removed from the concatenation: WFTM, which both sample pools hold, is listed
  twice.
\<close>

theorem tokens_repeated_counterexample:
  "map_sum id queried_tokens
     (queryFn sample_collaborators (Inr sample_poolShares) (Inr sample_pools))
   = Inr [sample_WFTM, sample_USDC, sample_WFTM_checksum, sample_WFTM, sample_BEETS_checksum]
   \<and> \<not> distinct [sample_WFTM, sample_USDC, sample_WFTM_checksum, sample_WFTM,
                     sample_BEETS_checksum]"
  by (simp add: sample_query sample_response_def)

lemma foldl_plus_bn_Finite:
  "foldl plus_bn (Finite a) (map Finite xs) = Finite (a + sum_list xs)"
  by (induction xs arbitrary: a) (simp_all add: add.assoc)

text \<open>
  The balance that enters the share of a pool is that of the last share record with the
  pool's id, and zero when there is no such record.
\<close>

lemma userSharesBalance_last_record:
  "userSharesBalance poolShares pool
     = (case find (\<lambda>s. poolId s = pool_id pool) (rev poolShares) of
          None \<Rightarrow> Finite 0
        | Some s \<Rightarrow> balance s)"
  by (simp add: userSharesBalance_def keyBy_last)

lemma shares_number:
  assumes "isFinite (totalLiquidity pool)" "isFinite (totalShares pool)"
    and "number_of (totalShares pool) \<noteq> 0"
    and "isFinite (case find (\<lambda>s. poolId s = pool_id pool) (rev poolShares) of
                     None \<Rightarrow> Finite 0 | Some s \<Rightarrow> balance s)"
  shows "shares (with_shares c poolShares pool)
     = Finite (c_rnd c (number_of (totalLiquidity pool) / number_of (totalShares pool))
               * number_of (case find (\<lambda>s. poolId s = pool_id pool) (rev poolShares) of
                              None \<Rightarrow> Finite 0 | Some s \<Rightarrow> balance s))"
proof -
  from assms obtain l s b where
    "totalLiquidity pool = Finite l" "totalShares pool = Finite s" "s \<noteq> 0"
    "userSharesBalance poolShares pool = Finite b"
    unfolding userSharesBalance_last_record [symmetric]
    by (cases "totalLiquidity pool"; cases "totalShares pool";
        cases "userSharesBalance poolShares pool") simp_all
  then show ?thesis
    unfolding userSharesBalance_last_record [symmetric]
    by (simp add: with_shares_def)
qed

lemma ROUND_HALF_UP_nonneg: "0 \<le> x \<Longrightarrow> 0 \<le> ROUND_HALF_UP dp x"
  by (simp add: ROUND_HALF_UP_def)

lemma sample_collaborators_more_fields:
  "c_isStablePhantom sample_collaborators_more = sample_isStablePhantom"
  "c_lpTokensFor sample_collaborators_more = sample_lpTokensFor"
  "c_addressFor sample_collaborators_more = sample_addressFor"
  "c_decorate sample_collaborators_more = sample_decorate_more"
  "c_getAddress sample_collaborators_more = sample_getAddress"
  "c_rnd sample_collaborators_more = ROUND_HALF_UP 20"
  "c_refetch sample_collaborators_more = sample_refetch"
  "c_awaited sample_collaborators_more = None"
  by (simp_all add: sample_collaborators_more_def sample_collaborators_def)

lemma sample_decorated_more:
  "decorate_loop sample_collaborators_more 0 sample_pools =
     Inr [sample_pool sample_WFTM_pool_id ''Weighted'' [sample_WFTM, sample_USDC] 10 4,
          sample_pool sample_BEETS_pool_id ''StablePhantom'' [sample_WFTM] 1 3]"
  by (simp add: sample_pools_def decorate_pool_def sample_collaborators_more_fields
      sample_isStablePhantom_def sample_pool_fields removePreMintedBPT_def sample_pool_filtered
      sample_addressFor_ids sample_lowercase sample_distinct)

lemma sample_query_more:
  "queryFn sample_collaborators_more (Inr sample_poolShares) (Inr sample_pools)
     = Inr sample_response_more"
  by (simp add: queryFn_def sample_decorated_more sample_collaborators_more_fields
      sample_poolShares_def sample_poolShare_def sample_pool_fields sample_pool_ids
      sample_pool_ids [THEN not_sym] sample_decorate_more_def
      with_shares_def userSharesBalance_def keyBy_def sample_rounding
      sample_response_more_def pool_tokens_def sample_lpTokensFor_def sample_addressFor_ids)

lemma sample_last_records:
  "find (\<lambda>s. poolId s = sample_WFTM_pool_id) (rev sample_poolShares)
     = Some (sample_poolShare sample_WFTM_pool_id 2)"
  "find (\<lambda>s. poolId s = sample_BEETS_pool_id) (rev sample_poolShares)
     = Some (sample_poolShare sample_BEETS_pool_id 3)"
  "find (\<lambda>s. poolId s = sample_USDC_pool_id) (rev sample_poolShares) = None"
  by (simp_all add: sample_poolShares_def sample_poolShare_def sample_pool_ids
      sample_pool_ids [THEN not_sym])

text \<open>
  Claim C1, as the code has it. When the query returns, there is one decorated pool for
  each fetched pool, in the same order and with the same id, and the pools of the result
  are what \<open>decorate\<close> returns for those of them whose id is the pool id of a share record
  of the user. When for each pool of the result \<open>totalLiquidity\<close>, \<open>totalShares\<close> and the
  balance are numbers and \<open>totalShares\<close> is not zero, the \<open>shares\<close> of each pool are
  \<open>(totalLiquidity / totalShares) * balance\<close>, the quotient rounded as \<open>div\<close> rounds it and
  the balance that of the last share record with the pool's id, zero when there is no such
  record; \<open>totalInvestedAmount\<close> is the sum of these values; and the sum is not negative
  when no amount is negative (a rounding never makes a negative number of one that is
  not).
\<close>

theorem totalInvestedAmount_sum:
  assumes "queryFn c (Inr poolShares) (Inr fetchedPools) = Inr r"
    and "\<forall>pool \<in> set (map decoratedPool (pools r)).
           isFinite (totalLiquidity pool) \<and> isFinite (totalShares pool)
           \<and> number_of (totalShares pool) \<noteq> 0
           \<and> isFinite (case find (\<lambda>s. poolId s = pool_id pool) (rev poolShares) of
                          None \<Rightarrow> Finite 0 | Some s \<Rightarrow> balance s)"
  shows "map shares (pools r)
           = map (\<lambda>pool. Finite
                    (c_rnd c (number_of (totalLiquidity pool) / number_of (totalShares pool))
                     * number_of (case find (\<lambda>s. poolId s = pool_id pool) (rev poolShares) of
                                    None \<Rightarrow> Finite 0 | Some s \<Rightarrow> balance s)))
               (map decoratedPool (pools r))
       \<and> totalInvestedAmount r
           = Finite (\<Sum>pool\<leftarrow>map decoratedPool (pools r).
                       c_rnd c (number_of (totalLiquidity pool) / number_of (totalShares pool))
                       * number_of (case find (\<lambda>s. poolId s = pool_id pool) (rev poolShares) of
                                      None \<Rightarrow> Finite 0 | Some s \<Rightarrow> balance s))
       \<and> ((\<forall>x. 0 \<le> x \<longrightarrow> 0 \<le> c_rnd c x)
            \<and> (\<forall>pool \<in> set (map decoratedPool (pools r)).
                  0 \<le> number_of (totalLiquidity pool) \<and> 0 \<le> number_of (totalShares pool)
                  \<and> 0 \<le> number_of (case find (\<lambda>s. poolId s = pool_id pool) (rev poolShares) of
                                      None \<Rightarrow> Finite 0 | Some s \<Rightarrow> balance s))
          \<longrightarrow> 0 \<le> (\<Sum>pool\<leftarrow>map decoratedPool (pools r).
                       c_rnd c (number_of (totalLiquidity pool) / number_of (totalShares pool))
                       * number_of (case find (\<lambda>s. poolId s = pool_id pool) (rev poolShares) of
                                      None \<Rightarrow> Finite 0 | Some s \<Rightarrow> balance s)))
       \<and> (\<exists>pools'. length pools' = length fetchedPools
             \<and> (\<forall>i < length fetchedPools.
                   decorate_pool c i (fetchedPools ! i) = Inr (pools' ! i)
                   \<and> pool_id (pools' ! i) = pool_id (fetchedPools ! i))
             \<and> c_decorate c (filter (\<lambda>pool. pool_id pool \<in> poolId ` set poolShares) pools')
                 = Inr (map decoratedPool (pools r)))"
proof -
  let ?bal = "\<lambda>pool. case find (\<lambda>s. poolId s = pool_id pool) (rev poolShares) of
                        None \<Rightarrow> Finite 0 | Some s \<Rightarrow> balance s"
  let ?amount = "\<lambda>pool. c_rnd c (number_of (totalLiquidity pool) / number_of (totalShares pool))
                         * number_of (?bal pool)"
  from queryFn_result [OF assms(1)] obtain pools' decoratedPools where
    d: "decorate_loop c 0 fetchedPools = Inr pools'"
    and u: "c_decorate c (filter (\<lambda>pool. pool_id pool \<in> poolId ` set poolShares) pools')
               = Inr decoratedPools"
    and p: "pools r = map (with_shares c poolShares) decoratedPools"
    and t: "totalInvestedAmount r
               = foldl plus_bn (Finite 0) (map shares (map (with_shares c poolShares) decoratedPools))"
    by blast
  have dp: "map decoratedPool (pools r) = decoratedPools"
    by (simp add: p with_shares_def comp_def)
  have num: "\<forall>pool \<in> set decoratedPools.
           isFinite (totalLiquidity pool) \<and> isFinite (totalShares pool)
           \<and> number_of (totalShares pool) \<noteq> 0 \<and> isFinite (?bal pool)"
    using assms(2) by (simp only: dp)
  have each: "shares (with_shares c poolShares pool) = Finite (?amount pool)"
    if "pool \<in> set decoratedPools" for pool
    using num that by (intro shares_number) auto
  have eq: "map shares (map (with_shares c poolShares) decoratedPools)
          = map Finite (map ?amount decoratedPools)"
    using each by simp
  have sh: "map shares (pools r) = map (\<lambda>pool. Finite (?amount pool)) decoratedPools"
    using eq by (simp add: p comp_def)
  have "totalInvestedAmount r = Finite (0 + (\<Sum>pool\<leftarrow>decoratedPools. ?amount pool))"
    unfolding t eq by (rule foldl_plus_bn_Finite)
  then have total: "totalInvestedAmount r = Finite (\<Sum>pool\<leftarrow>decoratedPools. ?amount pool)"
    by simp
  have nonneg: "0 \<le> (\<Sum>pool\<leftarrow>decoratedPools. ?amount pool)"
    if "\<forall>x. 0 \<le> x \<longrightarrow> 0 \<le> c_rnd c x"
      "\<forall>pool \<in> set decoratedPools.
          0 \<le> number_of (totalLiquidity pool) \<and> 0 \<le> number_of (totalShares pool)
          \<and> 0 \<le> number_of (?bal pool)"
    using that by (auto intro!: sum_list_nonneg)
  have rel: "length pools' = length fetchedPools
             \<and> (\<forall>i < length fetchedPools.
                   decorate_pool c i (fetchedPools ! i) = Inr (pools' ! i)
                   \<and> pool_id (pools' ! i) = pool_id (fetchedPools ! i))"
    using decorate_loop_relation [OF d] by simp
  show ?thesis
    unfolding dp using sh total nonneg rel u by blast
qed

theorem totalInvestedAmount_sum_witness:
  "queryFn sample_collaborators_more (Inr sample_poolShares) (Inr sample_pools)
     = Inr sample_response_more
   \<and> map pool_id (map decoratedPool (pools sample_response_more))
       = [sample_WFTM_pool_id, sample_BEETS_pool_id, sample_USDC_pool_id]
   \<and> find (\<lambda>s. poolId s = sample_WFTM_pool_id) (rev sample_poolShares)
       = Some (sample_poolShare sample_WFTM_pool_id 2)
   \<and> find (\<lambda>s. poolId s = sample_BEETS_pool_id) (rev sample_poolShares)
       = Some (sample_poolShare sample_BEETS_pool_id 3)
   \<and> find (\<lambda>s. poolId s = sample_USDC_pool_id) (rev sample_poolShares) = None
   \<and> map shares (pools sample_response_more)
       = [Finite 5, Finite (99999999999999999999 / 100000000000000000000), Finite 0]
   \<and> totalInvestedAmount sample_response_more
       = Finite (599999999999999999999 / 100000000000000000000)
   \<and> 0 \<le> (\<Sum>pool\<leftarrow>map decoratedPool (pools sample_response_more).
          c_rnd sample_collaborators_more
            (number_of (totalLiquidity pool) / number_of (totalShares pool))
          * number_of (case find (\<lambda>s. poolId s = pool_id pool) (rev sample_poolShares) of
                         None \<Rightarrow> Finite 0 | Some s \<Rightarrow> balance s))"
proof -
  have numbers: "\<forall>pool \<in> set (map decoratedPool (pools sample_response_more)).
           isFinite (totalLiquidity pool) \<and> isFinite (totalShares pool)
           \<and> number_of (totalShares pool) \<noteq> 0
           \<and> isFinite (case find (\<lambda>s. poolId s = pool_id pool) (rev sample_poolShares) of
                          None \<Rightarrow> Finite 0 | Some s \<Rightarrow> balance s)"
    by (simp add: sample_response_more_def sample_pool_fields
        sample_last_records sample_poolShare_def)
  note inst = totalInvestedAmount_sum [OF sample_query_more numbers]
  have rnd: "\<forall>x. 0 \<le> x \<longrightarrow> 0 \<le> c_rnd sample_collaborators_more x"
    by (simp add: sample_collaborators_more_fields ROUND_HALF_UP_nonneg)
  have amounts: "\<forall>pool \<in> set (map decoratedPool (pools sample_response_more)).
           0 \<le> number_of (totalLiquidity pool) \<and> 0 \<le> number_of (totalShares pool)
           \<and> 0 \<le> number_of (case find (\<lambda>s. poolId s = pool_id pool) (rev sample_poolShares) of
                               None \<Rightarrow> Finite 0 | Some s \<Rightarrow> balance s)"
    by (simp add: sample_response_more_def sample_pool_fields
        sample_last_records sample_poolShare_def)
  have "0 \<le> (\<Sum>pool\<leftarrow>map decoratedPool (pools sample_response_more).
          c_rnd sample_collaborators_more
            (number_of (totalLiquidity pool) / number_of (totalShares pool))
          * number_of (case find (\<lambda>s. poolId s = pool_id pool) (rev sample_poolShares) of
                         None \<Rightarrow> Finite 0 | Some s \<Rightarrow> balance s))"
    using inst rnd amounts by blast
  then show ?thesis
    using sample_query_more inst
    by (simp add: sample_last_records sample_response_more_def sample_pool_fields)
qed

text \<open>
  A pool without shares makes the total \<open>NaN\<close>, although no amount is negative:
  \<open>0 / 0\<close>. And the quotient is rounded: for a pool of liquidity 1 and 3 shares, all held
  by the user, the total is \<open>0.99999999999999999999\<close>, not \<open>(1 / 3) * 3\<close>.
\<close>

theorem totalInvestedAmount_counterexample:
  "map_sum id totalInvestedAmount
     (queryFn sample_collaborators (Inr [sample_poolShare sample_WFTM_pool_id 0])
        (Inr [sample_pool sample_WFTM_pool_id ''Weighted'' [sample_WFTM] 0 0]))
   = Inr NaN
   \<and> 0 \<le> number_of (totalLiquidity (sample_pool sample_WFTM_pool_id ''Weighted'' [sample_WFTM] 0 0))
   \<and> 0 \<le> number_of (totalShares (sample_pool sample_WFTM_pool_id ''Weighted'' [sample_WFTM] 0 0))
   \<and> 0 \<le> number_of (balance (sample_poolShare sample_WFTM_pool_id 0))
   \<and> map_sum id totalInvestedAmount
       (queryFn sample_collaborators (Inr [sample_poolShare sample_WFTM_pool_id 3])
          (Inr [sample_pool sample_WFTM_pool_id ''Weighted'' [sample_WFTM] 1 3]))
     = Inr (Finite (99999999999999999999 / 100000000000000000000))
   \<and> (1 / 3) * 3 \<noteq> (99999999999999999999 / 100000000000000000000 :: rat)"
  by (simp add: queryFn_def decorate_pool_def sample_collaborators_fields
      sample_isStablePhantom_def sample_pool_fields sample_decorate_def with_shares_def
      userSharesBalance_def keyBy_def sample_poolShare_def sample_rounding)

end
